theory Spec2Isabelle
  imports Complex_Main
begin

section \<open>Python values\<close>

text \<open>
  The query rows reach the renderers untyped (they come out of \<^verbatim>\<open>json.loads\<close> or
  a Langflow \<^verbatim>\<open>Data\<close> object), and the code probes them with \<^verbatim>\<open>isinstance\<close>.
  A value is therefore one of the JSON shapes. A dict is an association list in
  insertion order (\<^verbatim>\<open>list(d.keys())\<close> is the list of first components).

  A Python float is a finite value, the negative zero, an infinity or NaN
  (\<^verbatim>\<open>json.loads\<close> delivers \<^verbatim>\<open>NaN\<close> and \<^verbatim>\<open>Infinity\<close>). The finite doubles are among
  the reals, and \<open>Finite 0\<close> is the positive zero. What arithmetic on doubles
  returns (a sum, a maximum, a product) is not computed here: it belongs to the
  library functions below.

  Printing an int (\<^verbatim>\<open>str\<close>, a format specification) is taken to succeed: the limit
  an interpreter may put on the number of digits of an int it prints (4300 by
  default, enforced by \<^verbatim>\<open>json.loads\<close> on the ints it reads) is not modelled.
\<close>

datatype pyfloat =
    Finite real
  | NegZero
  | PosInf
  | NegInf
  | NaN

datatype pyval =
    PNone
  | PBool bool
  | PInt int
  | PFloat pyfloat
  | PStr string
  | PList "pyval list"
  | PDict "(string \<times> pyval) list"

datatype py_error =
    TypeError
  | ValueError
  | OverflowError
  | ZeroDivisionError
  | AttributeError

text \<open>Truth value of an object, as \<^verbatim>\<open>if v:\<close> and \<^verbatim>\<open>not v\<close> read it.\<close>

fun truthy :: "pyval \<Rightarrow> bool" where
  "truthy PNone = False"
| "truthy (PBool b) = b"
| "truthy (PInt i) = (i \<noteq> 0)"
| "truthy (PFloat f) = (f \<noteq> Finite 0 \<and> f \<noteq> NegZero)"
| "truthy (PStr s) = (s \<noteq> [])"
| "truthy (PList xs) = (xs \<noteq> [])"
| "truthy (PDict kvs) = (kvs \<noteq> [])"

text \<open>\<^verbatim>\<open>not name\<close> for an optional string: None and the empty string are both false.\<close>

fun str_truthy :: "string option \<Rightarrow> bool" where
  "str_truthy None = False"
| "str_truthy (Some s) = (s \<noteq> [])"

fun is_dict :: "pyval \<Rightarrow> bool" where
  "is_dict (PDict kvs) = True"
| "is_dict v = False"

fun is_list :: "pyval \<Rightarrow> bool" where
  "is_list (PList xs) = True"
| "is_list v = False"

text \<open>\<^verbatim>\<open>isinstance(v, (int, float))\<close>: bool is a subclass of int.\<close>

fun is_number :: "pyval \<Rightarrow> bool" where
  "is_number (PInt i) = True"
| "is_number (PFloat r) = True"
| "is_number (PBool b) = True"
| "is_number v = False"

text \<open>\<^verbatim>\<open>d.get(k, default)\<close> and \<^verbatim>\<open>list(d.keys())\<close>.\<close>

definition dict_get :: "(string \<times> pyval) list \<Rightarrow> string \<Rightarrow> pyval \<Rightarrow> pyval" where
  "dict_get kvs k d = (case map_of kvs k of Some v \<Rightarrow> v | None \<Rightarrow> d)"

definition dict_keys :: "(string \<times> pyval) list \<Rightarrow> string list" where
  "dict_keys kvs = map fst kvs"

section \<open>Numbers\<close>

subsection \<open>Number formatting\<close>

text \<open>
  The format specifications \<^verbatim>\<open>{v:,}\<close>, \<^verbatim>\<open>{v:,.2f}\<close> and \<^verbatim>\<open>{v:,.0f}\<close>: decimal digits,
  a comma between groups of three digits of the integer part, a fixed number of
  decimals rounded half to even. A float that is not finite prints as \<open>nan\<close>,
  \<open>inf\<close> or \<open>-inf\<close>, and the negative zero keeps its sign.
\<close>

fun str_nat :: "nat \<Rightarrow> string" where
  "str_nat n =
     (if n < 10 then [''0123456789'' ! n]
      else str_nat (n div 10) @ [''0123456789'' ! (n mod 10)])"

declare str_nat.simps [simp del]

definition str_int :: "int \<Rightarrow> string" where
  "str_int i = (if i < 0 then ''-'' else '''') @ str_nat (nat \<bar>i\<bar>)"

fun group3 :: "string \<Rightarrow> string" where
  "group3 (a # b # c # d # rest) = a # b # c # CHR '','' # group3 (d # rest)"
| "group3 ds = ds"

definition commas :: "string \<Rightarrow> string" where
  "commas ds = rev (group3 (rev ds))"

definition fmt_int_grouped :: "int \<Rightarrow> string" where
  "fmt_int_grouped i = (if i < 0 then ''-'' else '''') @ commas (str_nat (nat \<bar>i\<bar>))"

definition round_half_even :: "real \<Rightarrow> int" where
  "round_half_even r =
     (let n = \<lfloor>r\<rfloor>; f = r - of_int n
      in if f < 1 / 2 then n else if 1 / 2 < f then n + 1 else if even n then n else n + 1)"

definition pad_zeros :: "nat \<Rightarrow> string \<Rightarrow> string" where
  "pad_zeros d ds = replicate (d - length ds) CHR ''0'' @ ds"

definition fmt_fixed_real :: "nat \<Rightarrow> real \<Rightarrow> string" where
  "fmt_fixed_real d r =
     (let q = nat (round_half_even (\<bar>r\<bar> * 10 ^ d));
          ip = q div 10 ^ d;
          fp = q mod 10 ^ d
      in (if r < 0 then ''-'' else '''') @ commas (str_nat ip)
         @ (if d = 0 then '''' else ''.'' @ pad_zeros d (str_nat fp)))"

fun fmt_fixed_grouped :: "nat \<Rightarrow> pyfloat \<Rightarrow> string" where
  "fmt_fixed_grouped d (Finite r) = fmt_fixed_real d r"
| "fmt_fixed_grouped d NegZero =
     ''-0'' @ (if d = 0 then '''' else ''.'' @ replicate d CHR ''0'')"
| "fmt_fixed_grouped d PosInf = ''inf''"
| "fmt_fixed_grouped d NegInf = ''-inf''"
| "fmt_fixed_grouped d NaN = ''nan''"

subsection \<open>Conversion of an int\<close>

text \<open>
  \<^verbatim>\<open>float(i)\<close> on an int: the nearest double, a tie going to the even significand
  of 53 bits, and OverflowError when that is \<open>2^1024\<close> or more. An int below
  \<open>2^53\<close> in magnitude converts exactly.
\<close>

fun bit_length :: "nat \<Rightarrow> nat" where
  "bit_length n = (if n = 0 then 0 else Suc (bit_length (n div 2)))"

declare bit_length.simps [simp del]

definition float_of_int :: "int \<Rightarrow> py_error + pyfloat" where
  "float_of_int i =
     (let a = nat \<bar>i\<bar>;
          q = 2 ^ (bit_length a - 53);
          m = a div q;
          r = a mod q;
          n = (if q < 2 * r \<or> (2 * r = q \<and> odd m) then m + 1 else m) * q
      in if 2 ^ 1024 \<le> n then Inl OverflowError
         else Inr (Finite (if i < 0 then - real n else real n)))"

section \<open>The canvas\<close>

text \<open>
  A reportlab canvas is written to and never read: the model of a renderer returns
  the drawing operations it emits, in order, and the new cursor. \<open>ShowPage\<close> ends
  the current page. A chart and a table are one operation each (one
  \<^verbatim>\<open>renderPDF.draw\<close>, one \<^verbatim>\<open>Table.drawOn\<close>), carrying what the code configured.
  Lengths are in points; \<open>cm\<close>, and the A4 page size are reportlab's constants.
\<close>

datatype op =
    SetFont string real
  | SetFillColor string
  | SetStrokeColor string
  | SetLineWidth real
  | Rect real real real real
  | RoundRect real real real real real bool bool
  | DrawString real real string
  | Line real real real real
  | Circle real real real
  | ShowPage
  | BarChart real real real real string "string list" "pyfloat list" pyfloat real
  | PieChart real real real real string "string list" "pyfloat list"
  | TableDraw real real "string list list" "real list"
  | Save

definition cm :: real where
  "cm = 72 / 2.54"

definition page_width :: real where
  "page_width = 210 * (cm * 0.1)"

definition page_height :: real where
  "page_height = 297 * (cm * 0.1)"

fun is_bar_chart :: "op \<Rightarrow> bool" where
  "is_bar_chart (BarChart x y w h t ls vs vmax ang) = True"
| "is_bar_chart other = False"

fun is_pie_chart :: "op \<Rightarrow> bool" where
  "is_pie_chart (PieChart x y w h t ls vs) = True"
| "is_pie_chart other = False"

definition is_chart :: "op \<Rightarrow> bool" where
  "is_chart o1 = (is_bar_chart o1 \<or> is_pie_chart o1)"

section \<open>Library functions the renderers call\<close>

text \<open>
  The renderers call into the Python standard library and into reportlab. Those
  functions are not code of this repository; they are parameters of the model:
  \<^item> \<open>str_of\<close>: \<^verbatim>\<open>str(v)\<close>;
  \<^item> \<open>float_of_str\<close>: \<^verbatim>\<open>float(s)\<close> on a string, None where it raises ValueError;
  \<^item> \<open>sum_is_zero\<close>: \<^verbatim>\<open>sum(values) == 0\<close>, with the sum that double arithmetic
    gives;
  \<^item> \<open>scaled_max\<close>: \<^verbatim>\<open>max(values) * 1.1\<close>;
  \<^item> \<open>render_error\<close>: the exception \<^verbatim>\<open>renderPDF.draw\<close> raises on a chart, None when
    it draws it (reportlab refuses a value axis whose bound is infinite or NaN);
  \<^item> \<open>wrap\<close>: \<^verbatim>\<open>textwrap.wrap(text, width)\<close>;
  \<^item> \<open>title_case\<close>: \<^verbatim>\<open>str.title\<close>;
  \<^item> \<open>table_height\<close>: the height \<^verbatim>\<open>Table.wrapOn\<close> reports for the cell texts and
    column widths.
\<close>

record pylib =
  str_of :: "pyval \<Rightarrow> string"
  float_of_str :: "string \<Rightarrow> pyfloat option"
  sum_is_zero :: "pyfloat list \<Rightarrow> bool"
  scaled_max :: "pyfloat list \<Rightarrow> pyfloat"
  render_error :: "op \<Rightarrow> py_error option"
  wrap :: "string \<Rightarrow> nat \<Rightarrow> string list"
  title_case :: "string \<Rightarrow> string"
  table_height :: "string list list \<Rightarrow> real list \<Rightarrow> real"

text \<open>
  \<^verbatim>\<open>float(v)\<close>. A float is returned as it is, a bool is 1.0 or 0.0, an int is
  rounded to the nearest double or raises OverflowError; None, lists and dicts raise
  TypeError; a string that does not parse raises ValueError.
\<close>

fun py_float :: "pylib \<Rightarrow> pyval \<Rightarrow> py_error + pyfloat" where
  "py_float L (PFloat f) = Inr f"
| "py_float L (PInt i) = float_of_int i"
| "py_float L (PBool b) = Inr (Finite (if b then 1 else 0))"
| "py_float L (PStr s) =
     (case float_of_str L s of None \<Rightarrow> Inl ValueError | Some f \<Rightarrow> Inr f)"
| "py_float L PNone = Inl TypeError"
| "py_float L (PList xs) = Inl TypeError"
| "py_float L (PDict kvs) = Inl TypeError"

section \<open>Chart renderers\<close>

text \<open>
  Field auto-detection, shared by both renderers: an unset (or empty) key field
  becomes the first key of row 0, an unset value field the second key (the first
  when there is only one), provided row 0 is a dict.
\<close>

definition infer_key_field :: "string option \<Rightarrow> pyval \<Rightarrow> string option" where
  "infer_key_field key_field row0 =
     (case row0 of
        PDict kvs \<Rightarrow>
          (if \<not> str_truthy key_field
           then (case dict_keys kvs of [] \<Rightarrow> None | k # ks \<Rightarrow> Some k)
           else key_field)
      | _ \<Rightarrow> key_field)"

definition infer_value_field :: "string option \<Rightarrow> pyval \<Rightarrow> string option" where
  "infer_value_field value_field row0 =
     (case row0 of
        PDict kvs \<Rightarrow>
          (if \<not> str_truthy value_field
           then (let keys = dict_keys kvs
                 in if length keys > 1 then Some (keys ! 1)
                    else if keys \<noteq> [] then Some (keys ! 0) else None)
           else value_field)
      | _ \<Rightarrow> value_field)"

text \<open>
  The conversion of one row's value: \<^verbatim>\<open>try: float(item.get(value_field, 0))\<close> with
  the bare \<^verbatim>\<open>except: values.append(0)\<close>. The \<open>try\<close> body is \<open>py_float\<close>, which can
  fail; the handler turns every failure into the value 0 (the int 0 of the code
  stands among the floats as the zero it equals).
\<close>

definition row_value ::
  "pylib \<Rightarrow> string \<Rightarrow> (string \<times> pyval) list \<Rightarrow> py_error + pyfloat" where
  "row_value L value_field kvs =
     (case py_float L (dict_get kvs value_field (PInt 0)) of
        Inl e \<Rightarrow> Inr (Finite 0)
      | Inr f \<Rightarrow> Inr f)"

text \<open>
  The loop that collects labels and values. Rows that are not dicts are skipped.
  \<open>trunc\<close> is the label truncation: 10 characters for the bar chart, none for the pie.
\<close>

fun chart_rows ::
  "pylib \<Rightarrow> (string \<Rightarrow> string) \<Rightarrow> string \<Rightarrow> string \<Rightarrow> pyval list
     \<Rightarrow> py_error + (string list \<times> pyfloat list)" where
  "chart_rows L trunc key_field value_field [] = Inr ([], [])"
| "chart_rows L trunc key_field value_field (item # items) =
     (case item of
        PDict kvs \<Rightarrow>
          (case row_value L value_field kvs of
             Inl e \<Rightarrow> Inl e
           | Inr v \<Rightarrow>
               (case chart_rows L trunc key_field value_field items of
                  Inl e \<Rightarrow> Inl e
                | Inr (labels, vals) \<Rightarrow>
                    Inr (trunc (str_of L (dict_get kvs key_field (PStr ''''))) # labels,
                         v # vals)))
      | _ \<Rightarrow> chart_rows L trunc key_field value_field items)"

definition create_bar_chart ::
  "pylib \<Rightarrow> pyval \<Rightarrow> real \<Rightarrow> real \<Rightarrow> real \<Rightarrow> real \<Rightarrow> string
     \<Rightarrow> string option \<Rightarrow> string option \<Rightarrow> py_error + (op list \<times> real)" where
  "create_bar_chart L data x y width height title key_field value_field =
     (case data of
        PList (row0 # rest) \<Rightarrow>
          (let kf = infer_key_field key_field row0;
               vf = infer_value_field value_field row0
           in if \<not> str_truthy kf \<or> \<not> str_truthy vf then Inr ([], y)
              else
                (case chart_rows L (take 10) (the kf) (the vf) (take 10 (row0 # rest)) of
                   Inl e \<Rightarrow> Inl e
                 | Inr (labels, vals) \<Rightarrow>
                     (if vals = [] then Inr ([], y)
                      else
                        (let chart = BarChart x (y - height) width height title labels vals
                                       (scaled_max L vals)
                                       (if length labels > 5 then 45 else 0)
                         in case render_error L chart of
                              Some e \<Rightarrow> Inl e
                            | None \<Rightarrow> Inr ([chart], y - height - 20)))))
      | _ \<Rightarrow> Inr ([], y))"

definition pie_label :: "string \<times> pyfloat \<Rightarrow> string" where
  "pie_label lv = fst lv @ [CHR 0x0A] @ ''('' @ fmt_fixed_grouped 0 (snd lv) @ '')''"

definition create_pie_chart ::
  "pylib \<Rightarrow> pyval \<Rightarrow> real \<Rightarrow> real \<Rightarrow> real \<Rightarrow> real \<Rightarrow> string
     \<Rightarrow> string option \<Rightarrow> string option \<Rightarrow> py_error + (op list \<times> real)" where
  "create_pie_chart L data x y width height title key_field value_field =
     (case data of
        PList (row0 # rest) \<Rightarrow>
          (let kf = infer_key_field key_field row0;
               vf = infer_value_field value_field row0
           in if \<not> str_truthy kf \<or> \<not> str_truthy vf then Inr ([], y)
              else
                (case chart_rows L (\<lambda>s. s) (the kf) (the vf) (take 8 (row0 # rest)) of
                   Inl e \<Rightarrow> Inl e
                 | Inr (labels, vals) \<Rightarrow>
                     (if vals = [] \<or> sum_is_zero L vals then Inr ([], y)
                      else
                        (let chart = PieChart x (y - height) width height title
                                       (map pie_label (zip labels vals)) vals
                         in case render_error L chart of
                              Some e \<Rightarrow> Inl e
                            | None \<Rightarrow> Inr ([chart], y - height - 20)))))
      | _ \<Rightarrow> Inr ([], y))"

section \<open>Section renderers\<close>

definition draw_header :: "string \<Rightarrow> string \<Rightarrow> real \<Rightarrow> real \<Rightarrow> op list \<times> real" where
  "draw_header today title pw ph =
     (let header_height = 3 * cm
      in ([SetFillColor ''#2C3E50'',
           Rect 0 (ph - header_height + 0 * 0.3 * cm) pw (header_height - 0 * 0.3 * cm),
           SetFillColor ''#34495E'',
           Rect 0 (ph - header_height + 1 * 0.3 * cm) pw (header_height - 1 * 0.3 * cm),
           SetFillColor ''#3D5A6C'',
           Rect 0 (ph - header_height + 2 * 0.3 * cm) pw (header_height - 2 * 0.3 * cm),
           SetFillColor ''white'',
           SetFont ''Helvetica-Bold'' 22,
           DrawString (2 * cm) (ph - 1.8 * cm) title,
           SetFont ''Helvetica'' 10,
           DrawString (2 * cm) (ph - 2.3 * cm) (''Generated: '' @ today),
           SetStrokeColor ''#3498DB'',
           SetLineWidth 2,
           Line 0 (ph - header_height) pw (ph - header_height)],
          ph - header_height - 0.5 * cm))"

text \<open>
  A loop \<^verbatim>\<open>for line in wrapped: c.drawString(tx, y - off, line); y -= step\<close>, which the
  summary, the insights, the findings and the recommendations each have with their
  own constants.
\<close>

fun draw_lines :: "real \<Rightarrow> real \<Rightarrow> real \<Rightarrow> string list \<Rightarrow> real \<Rightarrow> op list \<times> real" where
  "draw_lines tx off step [] y = ([], y)"
| "draw_lines tx off step (line # lines) y =
     (let (ops, y') = draw_lines tx off step lines (y - step)
      in (DrawString tx (y - off) line # ops, y'))"

definition replace_underscores :: "string \<Rightarrow> string" where
  "replace_underscores s = map (\<lambda>c. if c = CHR ''_'' then CHR '' '' else c) s"

subsection \<open>Styled table\<close>

text \<open>
  A cell: \<^verbatim>\<open>isinstance(value, (int, float))\<close> sends floats to \<^verbatim>\<open>{value:,.2f}\<close> and
  every other number to \<^verbatim>\<open>{value:,}\<close> (a bool is an int there, and formats as 1 or 0);
  anything else is \<^verbatim>\<open>str(value)\<close>.
\<close>

definition format_cell :: "pylib \<Rightarrow> pyval \<Rightarrow> string" where
  "format_cell L v =
     (if is_number v then
        (case v of
           PFloat r \<Rightarrow> fmt_fixed_grouped 2 r
         | PInt i \<Rightarrow> fmt_int_grouped i
         | PBool b \<Rightarrow> fmt_int_grouped (if b then 1 else 0)
         | _ \<Rightarrow> str_of L v)
      else str_of L v)"

text \<open>
  One table row. \<^verbatim>\<open>item.get(col, "")\<close> raises AttributeError on an item that is not
  a dict, as soon as there is a column to read.
\<close>

definition table_row :: "pylib \<Rightarrow> string list \<Rightarrow> pyval \<Rightarrow> py_error + string list" where
  "table_row L columns item =
     (if columns = [] then Inr []
      else (case item of
              PDict kvs \<Rightarrow> Inr (map (\<lambda>col. format_cell L (dict_get kvs col (PStr []))) columns)
            | _ \<Rightarrow> Inl AttributeError))"

fun table_rows :: "pylib \<Rightarrow> string list \<Rightarrow> pyval list \<Rightarrow> py_error + string list list" where
  "table_rows L columns [] = Inr []"
| "table_rows L columns (item # items) =
     (case table_row L columns item of
        Inl e \<Rightarrow> Inl e
      | Inr row \<Rightarrow>
          (case table_rows L columns items of
             Inl e \<Rightarrow> Inl e
           | Inr rows \<Rightarrow> Inr (row # rows)))"

definition draw_styled_table ::
  "pylib \<Rightarrow> pyval \<Rightarrow> real \<Rightarrow> real \<Rightarrow> real \<Rightarrow> string \<Rightarrow> nat \<Rightarrow> py_error + (op list \<times> real)" where
  "draw_styled_table L data x y pw title max_rows =
     (case data of
        PList (row0 # rest) \<Rightarrow>
          (let (title_ops, y1) =
                 (if title \<noteq> []
                  then ([SetFont ''Helvetica-Bold'' 12, SetFillColor ''#2C3E50'',
                         DrawString x y title, SetFillColor ''black''], y - 20)
                  else ([], y))
           in case row0 of
                PDict kvs0 \<Rightarrow>
                  (let columns = dict_keys kvs0;
                       headers = map (\<lambda>col. title_case L (replace_underscores col)) columns
                   in case table_rows L columns (take max_rows (row0 # rest)) of
                        Inl e \<Rightarrow> Inl e
                      | Inr rows \<Rightarrow>
                          (let table_data = headers # rows;
                               available_width = pw - 2 * x;
                               col_count = length columns
                           in if col_count = 0 then Inl ZeroDivisionError
                              else
                                (let col_widths = replicate col_count (available_width / real col_count);
                                     h = table_height L table_data col_widths;
                                     (brk, y2) = (if y1 - h < 2 * cm then ([ShowPage], 27 * cm)
                                                  else ([], y1));
                                     y3 = y2 - h - 10;
                                     (note, y4) =
                                       (if length (row0 # rest) > max_rows
                                        then ([SetFont ''Helvetica-Oblique'' 8,
                                               SetFillColor ''#7F8C8D'',
                                               DrawString x y3
                                                 (''* Showing '' @ str_nat max_rows @ '' of ''
                                                  @ str_nat (length (row0 # rest))
                                                  @ '' total records''),
                                               SetFillColor ''black''], y3 - 15)
                                        else ([], y3))
                                 in Inr (title_ops @ brk
                                         @ [TableDraw x (y2 - h) table_data col_widths] @ note,
                                         y4))))
              | _ \<Rightarrow> Inr (title_ops, y1))
      | _ \<Rightarrow> Inr ([], y))"

subsection \<open>Metric cards\<close>

definition card_width :: real where
  "card_width = 7 * cm"

definition card_height :: real where
  "card_height = 2 * cm"

definition cards_per_row :: nat where
  "cards_per_row = 2"

definition spacing :: real where
  "spacing = 0.5 * cm"

text \<open>The content of one card: the first two entries of the metric, when it is a dict.\<close>

definition card_content :: "pylib \<Rightarrow> real \<Rightarrow> real \<Rightarrow> pyval \<Rightarrow> op list" where
  "card_content L card_x card_y metric =
     (case metric of
        PDict kvs \<Rightarrow>
          (case take 2 kvs of
             [] \<Rightarrow> []
           | (k1, v1) # items \<Rightarrow>
               [SetFont ''Helvetica'' 10, SetFillColor ''#7F8C8D'',
                DrawString (card_x + 10) (card_y - 20) (title_case L (replace_underscores k1)),
                SetFont ''Helvetica-Bold'' 16, SetFillColor ''#2C3E50'',
                DrawString (card_x + 10) (card_y - 40) (str_of L v1)]
               @ (case items of
                    [] \<Rightarrow> []
                  | (k2, v2) # more_items \<Rightarrow>
                      [SetFont ''Helvetica'' 9, SetFillColor ''#95A5A6'',
                       DrawString (card_x + 10) (card_y - 55)
                         (title_case L (replace_underscores k2) @ '': '' @ str_of L v2)]))
      | _ \<Rightarrow> [])"

definition draw_card :: "pylib \<Rightarrow> real \<Rightarrow> real \<Rightarrow> pyval \<Rightarrow> op list" where
  "draw_card L card_x card_y metric =
     [SetFillColor ''#F8F9FA'',
      RoundRect card_x (card_y - card_height) card_width card_height 5 True True,
      SetStrokeColor ''#BDC3C7'',
      SetLineWidth 0.5,
      RoundRect card_x (card_y - card_height) card_width card_height 5 False True]
     @ card_content L card_x card_y metric
     @ [SetFillColor ''black'']"

text \<open>
  The loop over \<^verbatim>\<open>enumerate(metrics[:10])\<close>: \<open>i\<close> is the index of the card at the
  head of the list, \<open>start_y\<close> the loop's variable of that name. The result is the
  operations and the value \<open>start_y\<close> has when the loop ends.
\<close>

fun cards_loop :: "pylib \<Rightarrow> real \<Rightarrow> nat \<Rightarrow> pyval list \<Rightarrow> real \<Rightarrow> op list \<times> real" where
  "cards_loop L x i [] start_y = ([], start_y)"
| "cards_loop L x i (metric # metrics) start_y =
     (let row = i div cards_per_row;
          col = i mod cards_per_row;
          card_x = x + real col * (card_width + spacing);
          card_y = start_y - real row * (card_height + spacing);
          new_page = (card_y - card_height < 3 * cm);
          start_y1 = (if new_page then 27 * cm else start_y);
          card_y1 = (if new_page then start_y1 - (real row * (card_height + spacing)) else card_y);
          (ops, start_y2) = cards_loop L x (Suc i) metrics start_y1
      in ((if new_page then [ShowPage] else []) @ draw_card L card_x card_y1 metric @ ops,
          start_y2))"

definition draw_metric_cards :: "pylib \<Rightarrow> pyval list \<Rightarrow> real \<Rightarrow> real \<Rightarrow> real \<Rightarrow> op list \<times> real" where
  "draw_metric_cards L metrics x y pw =
     (if metrics = [] then ([], y)
      else
        (let (ops, start_y) = cards_loop L x 0 (take 10 metrics) (y - 25);
             total_rows = (min (length metrics) 10 + cards_per_row - 1) div cards_per_row;
             final_y = start_y - (real total_rows * (card_height + spacing)) - 20
         in ([SetFont ''Helvetica-Bold'' 14, SetFillColor ''#2C3E50'',
              DrawString x y ''Key Metrics'', SetFillColor ''black''] @ ops,
             final_y)))"

subsection \<open>Insights\<close>

text \<open>An insight is a plain string or a dict of strings (\<^verbatim>\<open>Union[str, Dict[str, str]]\<close>).\<close>

datatype insight =
    InsightText string
  | InsightDict "(string \<times> string) list"

definition insight_text :: "pylib \<Rightarrow> insight \<Rightarrow> string" where
  "insight_text L ins =
     (case ins of
        InsightText s \<Rightarrow> s
      | InsightDict kvs \<Rightarrow>
          (case map_of kvs ''insight'' of
             Some s \<Rightarrow> s
           | None \<Rightarrow> str_of L (PDict (map (\<lambda>(k, v). (k, PStr v)) kvs))))"

text \<open>
  The block a list takes when the cursor is too low before an item: a new page, the
  cursor at 27 cm, the section title again with its suffix, the cursor 20 below.
\<close>

definition continued_title :: "real \<Rightarrow> string \<Rightarrow> string \<Rightarrow> op list" where
  "continued_title x colour heading =
     [ShowPage, SetFont ''Helvetica-Bold'' 14, SetFillColor colour,
      DrawString x (27 * cm) heading, SetFillColor ''black'']"

definition insight_badge :: "real \<Rightarrow> real \<Rightarrow> nat \<Rightarrow> op list" where
  "insight_badge x y i =
     [SetFillColor ''#3498DB'', Circle (x + 10) (y - 5) 8, SetFillColor ''white'',
      SetFont ''Helvetica-Bold'' 10, DrawString (x + 7) (y - 8) (str_nat i),
      SetFillColor ''#2C3E50'', SetFont ''Helvetica'' 10]"

fun insights_loop :: "pylib \<Rightarrow> real \<Rightarrow> nat \<Rightarrow> insight list \<Rightarrow> real \<Rightarrow> op list \<times> real" where
  "insights_loop L x i [] y = ([], y)"
| "insights_loop L x i (ins # rest) y =
     (let new_page = (y < 5 * cm);
          y1 = (if new_page then 27 * cm - 20 else y);
          (line_ops, y2) = draw_lines (x + 25) 8 14 (wrap L (insight_text L ins) 90) y1;
          (ops, y3) = insights_loop L x (Suc i) rest (y2 - 8)
      in ((if new_page then continued_title x ''#2C3E50'' ''Key Insights (continued)'' else [])
          @ insight_badge x y1 i @ line_ops @ ops,
          y3))"

definition draw_insights_section ::
  "pylib \<Rightarrow> insight list \<Rightarrow> real \<Rightarrow> real \<Rightarrow> real \<Rightarrow> op list \<times> real" where
  "draw_insights_section L insights x y pw =
     (if insights = [] then ([], y)
      else
        (let (ops, y1) = insights_loop L x 1 (take 8 insights) (y - 20)
         in ([SetFont ''Helvetica-Bold'' 14, SetFillColor ''#2C3E50'',
              DrawString x y ''Key Insights'', SetFillColor ''black'']
             @ ops @ [SetFillColor ''black''],
             y1)))"

section \<open>The document composer\<close>

text \<open>
  \<^verbatim>\<open>ReportModel\<close>, as pydantic validates it: every field but the title has an empty
  default.
\<close>

record report_model =
  title :: string
  executive_summary :: string
  timeframe :: string
  dataset_used :: string
  key_metrics :: "(string \<times> pyval) list list"
  insights :: "insight list"
  findings :: "string list"
  recommendations :: "string list"
  limitations :: "string list"
  next_steps :: "string list"

text \<open>
  Before a section: a new page when the cursor is below the threshold (in cm), a
  spacer of 15 otherwise.
\<close>

definition section_gap :: "real \<Rightarrow> real \<Rightarrow> op list \<times> real" where
  "section_gap threshold y =
     (if y < threshold * cm then ([ShowPage], 27 * cm) else ([], y - 15))"

definition summary_section :: "pylib \<Rightarrow> report_model \<Rightarrow> real \<Rightarrow> real \<Rightarrow> op list \<times> real" where
  "summary_section L report x y =
     (if executive_summary report \<noteq> [] then
        ([SetFillColor ''#EBF5FB'',
          RoundRect (x - 10) (y - 60) (page_width - 2 * x + 20) 50 5 True True,
          SetStrokeColor ''#3498DB'',
          SetLineWidth 1,
          RoundRect (x - 10) (y - 60) (page_width - 2 * x + 20) 50 5 False True,
          SetFillColor ''#2C3E50'',
          SetFont ''Helvetica'' 11]
         @ fst (draw_lines x 0 14 (take 3 (wrap L (executive_summary report) 80)) (y - 20))
         @ [SetFillColor ''black''],
         y - 70)
      else ([], y))"

text \<open>
  The value field of the charts: the first key of row 0 whose value is an int or a
  float (\<^verbatim>\<open>query_data[0].get(key)\<close> under \<^verbatim>\<open>isinstance\<close>).
\<close>

definition find_numeric_field :: "(string \<times> pyval) list \<Rightarrow> string option" where
  "find_numeric_field kvs = find (\<lambda>key. is_number (dict_get kvs key PNone)) (dict_keys kvs)"

text \<open>
  The two chart calls, once a value field has been found: the bar chart for at most
  15 rows, then the pie chart, on the first 8 rows, for at least 3 rows.
\<close>

definition draw_charts ::
  "pylib \<Rightarrow> string \<Rightarrow> pyval list \<Rightarrow> string option \<Rightarrow> real \<Rightarrow> real
     \<Rightarrow> py_error + (op list \<times> real)" where
  "draw_charts L chart_type rows numeric_field x y =
     (case (if chart_type \<in> set [''Auto'', ''Bar'', ''Both''] \<and> length rows \<le> 15
            then create_bar_chart L (PList rows) x y (page_width - 2 * x) 200
                   ''Data Distribution'' None numeric_field
            else Inr ([], y)) of
        Inl e \<Rightarrow> Inl e
      | Inr (bar_ops, y1) \<Rightarrow>
          (case (if chart_type \<in> set [''Auto'', ''Pie'', ''Both''] \<and> length rows \<ge> 3
                 then create_pie_chart L (PList (take 8 rows)) x y1 (page_width - 2 * x) 200
                        ''Top Items Distribution'' None numeric_field
                 else Inr ([], y1)) of
             Inl e \<Rightarrow> Inl e
           | Inr (pie_ops, y2) \<Rightarrow> Inr (bar_ops @ pie_ops, y2)))"

definition charts_section ::
  "pylib \<Rightarrow> string \<Rightarrow> pyval \<Rightarrow> real \<Rightarrow> real \<Rightarrow> py_error + (op list \<times> real)" where
  "charts_section L chart_type query_data x y =
     (if chart_type \<noteq> ''None'' then
        (case query_data of
           PList (row0 # rest) \<Rightarrow>
             (case row0 of
                PDict kvs \<Rightarrow>
                  (let numeric_field = find_numeric_field kvs
                   in if str_truthy numeric_field
                      then draw_charts L chart_type (row0 # rest) numeric_field x y
                      else Inr ([], y))
              | _ \<Rightarrow> Inr ([], y))
         | _ \<Rightarrow> Inr ([], y))
      else Inr ([], y))"

definition metrics_section :: "pylib \<Rightarrow> report_model \<Rightarrow> real \<Rightarrow> real \<Rightarrow> op list \<times> real" where
  "metrics_section L report x y =
     (if key_metrics report \<noteq> [] then
        (let (gap, y1) = section_gap 10 y;
             (ops, y2) = draw_metric_cards L (map PDict (key_metrics report)) x y1 page_width
         in (gap @ ops, y2))
      else ([], y))"

definition table_section ::
  "pylib \<Rightarrow> pyval \<Rightarrow> real \<Rightarrow> real \<Rightarrow> py_error + (op list \<times> real)" where
  "table_section L query_data x y =
     (if truthy query_data \<and> is_list query_data then
        (let (gap, y1) = section_gap 10 y
         in case draw_styled_table L query_data x y1 page_width ''Detailed Results'' 15 of
              Inl e \<Rightarrow> Inl e
            | Inr (ops, y2) \<Rightarrow> Inr (gap @ ops, y2))
      else Inr ([], y))"

definition insights_section :: "pylib \<Rightarrow> report_model \<Rightarrow> real \<Rightarrow> real \<Rightarrow> op list \<times> real" where
  "insights_section L report x y =
     (if insights report \<noteq> [] then
        (let (gap, y1) = section_gap 10 y;
             (ops, y2) = draw_insights_section L (insights report) x y1 page_width
         in (gap @ ops, y2))
      else ([], y))"

subsection \<open>Findings and recommendations\<close>

definition finding_bullet :: "real \<Rightarrow> real \<Rightarrow> op list" where
  "finding_bullet x y =
     [SetFont ''Helvetica'' 10, SetFillColor ''#3498DB'', Circle (x + 5) (y - 4) 2,
      SetFillColor ''black'']"

fun findings_loop :: "pylib \<Rightarrow> real \<Rightarrow> string list \<Rightarrow> real \<Rightarrow> op list \<times> real" where
  "findings_loop L x [] y = ([], y)"
| "findings_loop L x (finding # rest) y =
     (let new_page = (y < 4 * cm);
          y1 = (if new_page then 27 * cm - 20 else y);
          (line_ops, y2) = draw_lines (x + 15) 5 14 (wrap L finding 85) y1;
          (ops, y3) = findings_loop L x rest (y2 - 5)
      in ((if new_page then continued_title x ''#2C3E50'' ''Detailed Findings (continued)''
           else [])
          @ finding_bullet x y1 @ line_ops @ ops,
          y3))"

definition findings_section :: "pylib \<Rightarrow> report_model \<Rightarrow> real \<Rightarrow> real \<Rightarrow> op list \<times> real" where
  "findings_section L report x y =
     (if findings report \<noteq> [] then
        (let (gap, y1) = section_gap 8 y;
             (ops, y2) = findings_loop L x (take 10 (findings report)) (y1 - 20)
         in (gap
             @ [SetFont ''Helvetica-Bold'' 14, SetFillColor ''#2C3E50'',
                DrawString x y1 ''Detailed Findings'', SetFillColor ''black'']
             @ ops,
             y2))
      else ([], y))"

definition check_icon :: "real \<Rightarrow> real \<Rightarrow> op list" where
  "check_icon x y =
     [SetStrokeColor ''#27AE60'', SetLineWidth 2,
      Line (x + 3) (y - 3) (x + 6) (y - 6), Line (x + 6) (y - 6) (x + 12) (y + 2),
      SetStrokeColor ''black'', SetLineWidth 1,
      SetFont ''Helvetica'' 10, SetFillColor ''#2C3E50'']"

fun recommendations_loop :: "pylib \<Rightarrow> real \<Rightarrow> string list \<Rightarrow> real \<Rightarrow> op list \<times> real" where
  "recommendations_loop L x [] y = ([], y)"
| "recommendations_loop L x (rec # rest) y =
     (let new_page = (y < 4 * cm);
          y1 = (if new_page then 27 * cm - 20 else y);
          (line_ops, y2) = draw_lines (x + 20) 5 14 (wrap L rec 85) y1;
          (ops, y3) = recommendations_loop L x rest (y2 - 5)
      in ((if new_page then continued_title x ''#27AE60'' ''Recommendations (continued)''
           else [])
          @ check_icon x y1 @ line_ops @ ops,
          y3))"

definition recommendations_section ::
  "pylib \<Rightarrow> report_model \<Rightarrow> real \<Rightarrow> real \<Rightarrow> op list \<times> real" where
  "recommendations_section L report x y =
     (if recommendations report \<noteq> [] then
        (let (gap, y1) = section_gap 8 y;
             (ops, y2) = recommendations_loop L x (take 8 (recommendations report)) (y1 - 20)
         in (gap
             @ [SetFont ''Helvetica-Bold'' 14, SetFillColor ''#27AE60'',
                DrawString x y1 ''Recommendations'', SetFillColor ''black'']
             @ ops @ [SetFillColor ''black''],
             y2))
      else ([], y))"

subsection \<open>Limitations and next steps\<close>

text \<open>
  The markers are the UTF-8 bytes of a bullet and of a right arrow, each followed by
  a space.
\<close>

definition bullet_marker :: string where
  "bullet_marker = [CHR 0xE2, CHR 0x80, CHR 0xA2, CHR '' '']"

definition arrow_marker :: string where
  "arrow_marker = [CHR 0xE2, CHR 0x86, CHR 0x92, CHR '' '']"

fun column_items ::
  "pylib \<Rightarrow> real \<Rightarrow> real \<Rightarrow> string \<Rightarrow> string list \<Rightarrow> real \<Rightarrow> op list \<times> real" where
  "column_items L x_first x_rest marker [] temp_y = ([], temp_y)"
| "column_items L x_first x_rest marker (item # items) temp_y =
     (let (item_ops, t1) =
            (case wrap L item 40 of
               [] \<Rightarrow> ([], temp_y)
             | first_line # lines \<Rightarrow>
                 (let (cont, t) = draw_lines x_rest 0 12 lines (temp_y - 12)
                  in (DrawString x_first temp_y (marker @ first_line) # cont, t - 3)));
          (ops, t2) = column_items L x_first x_rest marker items t1
      in (item_ops @ ops, t2))"

definition limitations_column ::
  "pylib \<Rightarrow> report_model \<Rightarrow> real \<Rightarrow> real \<Rightarrow> real \<Rightarrow> op list \<times> real" where
  "limitations_column L report x y lowest_y =
     (if limitations report \<noteq> [] then
        (let (ops, temp_y) =
               column_items L (x + 5) (x + 12) bullet_marker (take 5 (limitations report)) (y - 18)
         in ([SetFont ''Helvetica-Bold'' 12, SetFillColor ''#E67E22'',
              DrawString x y ''Limitations'', SetFillColor ''black'',
              SetFont ''Helvetica'' 9] @ ops,
             min lowest_y temp_y))
      else ([], lowest_y))"

definition next_steps_column ::
  "pylib \<Rightarrow> report_model \<Rightarrow> real \<Rightarrow> real \<Rightarrow> real \<Rightarrow> real \<Rightarrow> op list \<times> real" where
  "next_steps_column L report x col_width y lowest_y =
     (if next_steps report \<noteq> [] then
        (let (ops, temp_y) =
               column_items L (x + col_width + 45) (x + col_width + 52) arrow_marker
                 (take 5 (next_steps report)) (y - 18)
         in ([SetFont ''Helvetica-Bold'' 12, SetFillColor ''#8E44AD'',
              DrawString (x + col_width + 40) y ''Next Steps'', SetFillColor ''black'',
              SetFont ''Helvetica'' 9] @ ops,
             min lowest_y temp_y))
      else ([], lowest_y))"

definition columns_section :: "pylib \<Rightarrow> report_model \<Rightarrow> real \<Rightarrow> real \<Rightarrow> op list \<times> real" where
  "columns_section L report x y =
     (if limitations report \<noteq> [] \<or> next_steps report \<noteq> [] then
        (let (gap, y1) = section_gap 10 y;
             col_width = (page_width - 2 * x) / 2 - 20;
             (lim_ops, lowest1) = limitations_column L report x y1 y1;
             (next_ops, lowest2) = next_steps_column L report x col_width y1 lowest1
         in (gap @ lim_ops @ next_ops, lowest2 - 10))
      else ([], y))"

definition footer :: "report_model \<Rightarrow> real \<Rightarrow> op list" where
  "footer report x =
     [SetFont ''Helvetica-Oblique'' 8, SetFillColor ''#95A5A6'',
      DrawString x (1.5 * cm) (''Data Source: '' @ dataset_used report),
      DrawString (page_width - 6 * cm) (1.5 * cm) ''Page 1'',
      SetStrokeColor ''#BDC3C7'', SetLineWidth 0.5,
      Line x (2 * cm) (page_width - x) (2 * cm),
      Save]"

subsection \<open>The whole document\<close>

text \<open>
  Everything after the header: the sections in their fixed order, each taking the
  cursor the one before left. An exception in a chart or in the table ends the call.
\<close>

definition document_body ::
  "pylib \<Rightarrow> report_model \<Rightarrow> pyval \<Rightarrow> string \<Rightarrow> real \<Rightarrow> real \<Rightarrow> py_error + op list" where
  "document_body L report query_data chart_type x y0 =
     (let (o1, y1) = summary_section L report x y0
      in case charts_section L chart_type query_data x y1 of
           Inl e \<Rightarrow> Inl e
         | Inr (o2, y2) \<Rightarrow>
             (let (o3, y3) = metrics_section L report x y2
              in case table_section L query_data x y3 of
                   Inl e \<Rightarrow> Inl e
                 | Inr (o4, y4) \<Rightarrow>
                     (let (o5, y5) = insights_section L report x y4;
                          (o6, y6) = findings_section L report x y5;
                          (o7, y7) = recommendations_section L report x y6;
                          (o8, y8) = columns_section L report x y7
                      in Inr (o1 @ o2 @ o3 @ o4 @ o5 @ o6 @ o7 @ o8 @ footer report x))))"

text \<open>
  \<^verbatim>\<open>_write_visual_pdf\<close>. \<open>today\<close> is what \<^verbatim>\<open>datetime.now().strftime('%B %d, %Y')\<close>
  returns during the call; the result is the operations the canvas received, or the
  exception that ended the call.
\<close>

definition write_visual_pdf ::
  "pylib \<Rightarrow> string \<Rightarrow> report_model \<Rightarrow> pyval \<Rightarrow> string \<Rightarrow> py_error + op list" where
  "write_visual_pdf L today report query_data chart_type =
     (let x = 2 * cm;
          (o0, y0) = draw_header today (title report) page_width page_height
      in case document_body L report query_data chart_type x y0 of
           Inl e \<Rightarrow> Inl e
         | Inr ops \<Rightarrow> Inr (o0 @ ops))"

section \<open>The component's summary\<close>

text \<open>
  \<^verbatim>\<open>build_pdf\<close> from the point where the report and the query data have been
  extracted. The output path, file name and folder are what the path handling
  computed. A rendering exception is caught and reported; the \<^verbatim>\<open>len(query_data)\<close>
  of the summary is outside that handler.
\<close>

record pdf_info =
  pdf_path :: string
  file_name :: string
  folder :: string
  metrics_count :: nat
  has_charts :: bool
  total_insights :: nat
  total_findings :: nat
  data_rows :: "nat option"

datatype build_result =
    RenderingFailed py_error
  | Built "op list" pdf_info

fun py_len :: "pyval \<Rightarrow> py_error + nat" where
  "py_len (PList xs) = Inr (length xs)"
| "py_len (PDict kvs) = Inr (length kvs)"
| "py_len (PStr s) = Inr (length s)"
| "py_len v = Inl TypeError"

definition build_pdf ::
  "pylib \<Rightarrow> string \<Rightarrow> report_model \<Rightarrow> pyval \<Rightarrow> string \<Rightarrow> string \<Rightarrow> string \<Rightarrow> string
     \<Rightarrow> py_error + build_result" where
  "build_pdf L today report query_data out_path fname dir chart_type =
     (case write_visual_pdf L today report query_data chart_type of
        Inl e \<Rightarrow> Inr (RenderingFailed e)
      | Inr ops \<Rightarrow>
          (case (if query_data \<noteq> PNone
                 then (case py_len query_data of Inl e \<Rightarrow> Inl e | Inr n \<Rightarrow> Inr (n > 0))
                 else Inr False) of
             Inl e \<Rightarrow> Inl e
           | Inr charts \<Rightarrow>
               (case (if truthy query_data
                      then (case py_len query_data of Inl e \<Rightarrow> Inl e | Inr n \<Rightarrow> Inr (Some n))
                      else Inr None) of
                  Inl e \<Rightarrow> Inl e
                | Inr rows \<Rightarrow>
                    Inr (Built ops
                      \<lparr>pdf_path = out_path, file_name = fname, folder = dir,
                       metrics_count = length (key_metrics report),
                       has_charts = charts,
                       total_insights = length (insights report),
                       total_findings = length (findings report),
                       data_rows = rows\<rparr>))))"

section \<open>Reading an operation sequence\<close>

text \<open>
  What the theorems below observe in the operations a renderer emitted: the rows of
  a row-set that are dicts, the strings drawn at a given abscissa, the item markers,
  the cell texts of the tables drawn, whether a sequence is free of chart
  operations, and where each card's background lies (page number counted from the
  \<open>ShowPage\<close> operations before it, left edge, top edge).
\<close>

fun dict_rows :: "pyval list \<Rightarrow> (string \<times> pyval) list list" where
  "dict_rows [] = []"
| "dict_rows (PDict kvs # rows) = kvs # dict_rows rows"
| "dict_rows (v # rows) = dict_rows rows"

fun strings_at :: "real \<Rightarrow> op list \<Rightarrow> string list" where
  "strings_at tx [] = []"
| "strings_at tx (DrawString x y s # ops) =
     (if x = tx then s # strings_at tx ops else strings_at tx ops)"
| "strings_at tx (other # ops) = strings_at tx ops"

fun is_circle :: "op \<Rightarrow> bool" where
  "is_circle (Circle x y r) = True"
| "is_circle other = False"

fun is_line :: "op \<Rightarrow> bool" where
  "is_line (Line x1 y1 x2 y2) = True"
| "is_line other = False"

text \<open>
  Every \<open>ShowPage\<close> of the sequence is followed at once by the title block: bold 14
  point font, the colour, the heading at \<open>x\<close> and at the height 27 cm, black again.
\<close>

fun titled_breaks :: "real \<Rightarrow> string \<Rightarrow> string \<Rightarrow> op list \<Rightarrow> bool" where
  "titled_breaks x colour heading [] = True"
| "titled_breaks x colour heading (ShowPage # ops) =
     (take 4 ops = [SetFont ''Helvetica-Bold'' 14, SetFillColor colour,
                    DrawString x (27 * cm) heading, SetFillColor ''black'']
      \<and> titled_breaks x colour heading ops)"
| "titled_breaks x colour heading (other # ops) = titled_breaks x colour heading ops"

fun drawn_tables :: "op list \<Rightarrow> string list list list" where
  "drawn_tables [] = []"
| "drawn_tables (TableDraw x y cells widths # ops) = cells # drawn_tables ops"
| "drawn_tables (other # ops) = drawn_tables ops"

definition no_chart :: "op list \<Rightarrow> bool" where
  "no_chart ops = list_all (\<lambda>o1. \<not> is_chart o1) ops"

fun card_tops :: "nat \<Rightarrow> op list \<Rightarrow> (nat \<times> real \<times> real) list" where
  "card_tops p [] = []"
| "card_tops p (ShowPage # ops) = card_tops (Suc p) ops"
| "card_tops p (RoundRect x y w h r True stroke # ops) = (p, x, y + h) # card_tops p ops"
| "card_tops p (other # ops) = card_tops p ops"

text \<open>
  The test \<^verbatim>\<open>card_y - card_height < 3 * cm\<close> of the card loop, for a card of the given
  row laid out from \<open>start_y\<close>.
\<close>

definition overflows :: "real \<Rightarrow> nat \<Rightarrow> bool" where
  "overflows start_y row =
     (start_y - real row * (card_height + spacing) - card_height < 3 * cm)"

text \<open>
  The place of card \<open>k\<close> in closed form, proved below to be where the loop draws it:
  the page (0 the page the cards start on, 1 the next), the left edge and the top
  edge. A card goes to the next page when its row fails the test from the first
  \<open>start_y\<close>, and is laid out there from 27 cm.
\<close>

definition card_place :: "real \<Rightarrow> real \<Rightarrow> nat \<Rightarrow> nat \<times> real \<times> real" where
  "card_place x start_y k =
     (if overflows start_y (k div 2) then 1 else 0,
      x + real (k mod 2) * (card_width + spacing),
      (if overflows start_y (k div 2) then 27 * cm else start_y)
        - real (k div 2) * (card_height + spacing))"

section \<open>Sample inputs\<close>

text \<open>
  Inputs for the examples that follow the theorems. The library functions of the
  examples are the simplest ones: a text that is not empty wraps to one line, no
  string parses as a number, a table row is 18 points high, every chart is drawn.
  Their arithmetic is that of the reals: the sum agrees with the double sum on the
  small whole numbers the examples use, the bound of the value axis is the exact
  product that \<^verbatim>\<open>max(values) * 1.1\<close> rounds to a double, and a sum with an infinity
  or NaN in it is not zero.
\<close>

fun is_finite :: "pyfloat \<Rightarrow> bool" where
  "is_finite (Finite r) = True"
| "is_finite NegZero = True"
| "is_finite f = False"

fun finite_part :: "pyfloat \<Rightarrow> real" where
  "finite_part (Finite r) = r"
| "finite_part f = 0"

definition sample_lib :: pylib where
  "sample_lib =
     \<lparr>str_of = (\<lambda>v. case v of
                        PStr s \<Rightarrow> s
                      | PInt i \<Rightarrow> str_int i
                      | PNone \<Rightarrow> ''None''
                      | PBool b \<Rightarrow> (if b then ''True'' else ''False'')
                      | _ \<Rightarrow> ''?''),
      float_of_str = (\<lambda>s. None),
      sum_is_zero = (\<lambda>vs. list_all is_finite vs \<and> sum_list (map finite_part vs) = 0),
      scaled_max = (\<lambda>vs. Finite (Max (set (map finite_part vs)) * 1.1)),
      render_error = (\<lambda>chart. None),
      wrap = (\<lambda>s w. if s = [] then [] else [s]),
      title_case = (\<lambda>s. s),
      table_height = (\<lambda>rows widths. 18 * real (length rows))\<rparr>"

definition sample_report :: report_model where
  "sample_report =
     \<lparr>title = ''Q1 Sales'', executive_summary = [], timeframe = [],
      dataset_used = ''Data Analysis'', key_metrics = [], insights = [], findings = [],
      recommendations = [], limitations = [], next_steps = []\<rparr>"

definition sample_row :: "string \<Rightarrow> int \<Rightarrow> pyval" where
  "sample_row name amount = PDict [(''name'', PStr name), (''amount'', PInt amount)]"

text \<open>The least int that \<^verbatim>\<open>float\<close> refuses with OverflowError.\<close>

definition overflowing_int :: int where
  "overflowing_int = 2 ^ 1024 - 2 ^ 970"

section \<open>Conversion of ints\<close>

text \<open>
  Small ints convert exactly; \<open>2^53 + 1\<close> is the first int that does not, and
  \<open>2^1024 - 2^970\<close> the first that overflows: the int before it converts to the
  largest double.
\<close>

lemma bit_length_le: "n < 2 ^ k \<Longrightarrow> bit_length n \<le> k"
proof (induction k arbitrary: n)
  case 0
  then show ?case by (simp add: bit_length.simps)
next
  case (Suc k)
  show ?case
  proof (cases "n = 0")
    case True
    then show ?thesis by (simp add: bit_length.simps)
  next
    case False
    from Suc.prems have "n div 2 < 2 ^ k" by simp
    then have "bit_length (n div 2) \<le> k" by (rule Suc.IH)
    with False show ?thesis by (subst bit_length.simps) simp
  qed
qed

lemma bit_length_ge: "2 ^ k \<le> n \<Longrightarrow> k < bit_length n"
proof (induction k arbitrary: n)
  case 0
  then show ?case by (subst bit_length.simps) simp
next
  case (Suc k)
  have pos: "(0 :: nat) < 2 ^ k" by simp
  from Suc.prems have twice: "2 * 2 ^ k \<le> n" by simp
  from pos twice have "n \<noteq> 0" by linarith
  moreover from twice have "2 ^ k \<le> n div 2" by linarith
  ultimately show ?case
    using Suc.IH [of "n div 2"] by (subst bit_length.simps) simp
qed

lemma bit_length_eq: "2 ^ k \<le> n \<Longrightarrow> n < 2 ^ Suc k \<Longrightarrow> bit_length n = Suc k"
  using bit_length_le [of n "Suc k"] bit_length_ge [of k n] by simp

lemma float_of_small_int:
  assumes "\<bar>i\<bar> < 2 ^ 53"
  shows "float_of_int i = Inr (Finite (of_int i))"
proof -
  define a where "a = nat \<bar>i\<bar>"
  from assms have small: "a < 2 ^ 53"
    by (simp add: a_def nat_less_iff)
  then have "bit_length a \<le> 53" by (rule bit_length_le)
  then have q: "bit_length a - 53 = 0" by simp
  have "(2 :: nat) ^ 53 < 2 ^ 1024" by simp
  with small have fits: "\<not> 2 ^ 1024 \<le> a" by simp
  have sign: "(if i < 0 then - real a else real a) = of_int i"
    by (simp add: a_def)
  have "float_of_int i =
      (if 2 ^ 1024 \<le> a then Inl OverflowError
       else Inr (Finite (if i < 0 then - real a else real a)))"
    unfolding float_of_int_def Let_def a_def [symmetric] q by simp
  with fits sign show ?thesis by simp
qed

lemma float_of_int_rounds: "float_of_int (2 ^ 53 + 1) = Inr (Finite (2 ^ 53))"
proof -
  have "bit_length (2 ^ 53 + 1) = Suc 53"
    by (rule bit_length_eq) simp_all
  then have b: "bit_length (nat \<bar>2 ^ 53 + 1\<bar>) - 53 = 1"
    by (simp add: nat_add_distrib nat_power_eq)
  show ?thesis
    unfolding float_of_int_def Let_def b
    by (simp add: nat_add_distrib nat_power_eq)
qed

lemma float_of_int_largest:
  "float_of_int (overflowing_int - 1) = Inr (Finite (2 ^ 1024 - 2 ^ 971))"
proof -
  have "bit_length (2 ^ 1024 - 2 ^ 970 - 1) = Suc 1023"
    by (rule bit_length_eq) simp_all
  then have b: "bit_length (nat \<bar>2 ^ 1024 - 2 ^ 970 - 1\<bar>) - 53 = 971"
    by (simp add: nat_power_eq nat_diff_distrib)
  show ?thesis
    unfolding float_of_int_def overflowing_int_def Let_def b
    by (simp add: nat_power_eq nat_diff_distrib)
qed


section \<open>Chart renderers: degenerate data and value coercion\<close>

text \<open>
  The row loop never fails, and its result is known in closed form: one label and
  one value for each row that is a dict, in order; the value is the zero where the
  conversion fails. Each renderer either returns at once, or hands one chart with
  those values to \<^verbatim>\<open>renderPDF.draw\<close>.
\<close>

lemma chart_rows_eq:
  "chart_rows L trunc kf vf rows =
     Inr (map (\<lambda>kvs. trunc (str_of L (dict_get kvs kf (PStr [])))) (dict_rows rows),
          map (\<lambda>kvs. case py_float L (dict_get kvs vf (PInt 0)) of Inl e \<Rightarrow> Finite 0 | Inr f \<Rightarrow> f)
            (dict_rows rows))"
  by (induction rows rule: dict_rows.induct) (simp_all add: row_value_def split: sum.splits)



lemma bar_chart_error_ex:
  "render_error L (BarChart a b c d t ls vs m ang) = Some e \<Longrightarrow>
     \<exists>chart. is_bar_chart chart \<and> render_error L chart = Some e"
  by (rule exI [of _ "BarChart a b c d t ls vs m ang"]) simp

lemma pie_chart_error_ex:
  "render_error L (PieChart a b c d t ls vs) = Some e \<Longrightarrow>
     \<exists>chart. is_pie_chart chart \<and> render_error L chart = Some e"
  by (rule exI [of _ "PieChart a b c d t ls vs"]) simp

lemma create_bar_chart_error:
  "create_bar_chart L data x y w h t kfo vfo = Inl e \<Longrightarrow>
     \<exists>chart. is_bar_chart chart \<and> render_error L chart = Some e"
  by (auto simp: create_bar_chart_def chart_rows_eq Let_def intro: bar_chart_error_ex
        split: pyval.splits list.splits if_splits option.splits)

lemma create_pie_chart_error:
  "create_pie_chart L data x y w h t kfo vfo = Inl e \<Longrightarrow>
     \<exists>chart. is_pie_chart chart \<and> render_error L chart = Some e"
  by (auto simp: create_pie_chart_def chart_rows_eq Let_def intro: pie_chart_error_ex
        split: pyval.splits list.splits if_splits option.splits)

lemma create_bar_chart_total:
  "(\<And>chart. render_error L chart = None) \<Longrightarrow>
     \<exists>res. create_bar_chart L data x y w h t kfo vfo = Inr res"
  using create_bar_chart_error [of L data x y w h t kfo vfo]
  by (cases "create_bar_chart L data x y w h t kfo vfo") auto

lemma create_pie_chart_total:
  "(\<And>chart. render_error L chart = None) \<Longrightarrow>
     \<exists>res. create_pie_chart L data x y w h t kfo vfo = Inr res"
  using create_pie_chart_error [of L data x y w h t kfo vfo]
  by (cases "create_pie_chart L data x y w h t kfo vfo") auto

text \<open>
  Claim C2. Both chart renderers return the cursor \<open>y\<close> they were given and emit no
  operation when the data is empty or not a list, and when a key field or a value
  field is missing after auto-detection on row 0 (in particular when neither can be
  inferred). The pie renderer does the same when \<^verbatim>\<open>sum(values) == 0\<close> holds of the
  values it collected from the first 8 rows.
\<close>

theorem chart_renderers_degenerate_noop:
  "(\<not> truthy data \<or> \<not> is_list data \<longrightarrow>
      create_bar_chart L data x y w h t key_field value_field = Inr ([], y)
    \<and> create_pie_chart L data x y w h t key_field value_field = Inr ([], y))
   \<and> (data = PList (first_row # rest)
        \<and> (\<not> str_truthy (infer_key_field key_field first_row)
           \<or> \<not> str_truthy (infer_value_field value_field first_row)) \<longrightarrow>
      create_bar_chart L data x y w h t key_field value_field = Inr ([], y)
    \<and> create_pie_chart L data x y w h t key_field value_field = Inr ([], y))
   \<and> (data = PList (first_row # rest)
        \<and> chart_rows L (\<lambda>s. s) (the (infer_key_field key_field first_row))
             (the (infer_value_field value_field first_row)) (take 8 (first_row # rest))
           = Inr (labels, vals)
        \<and> sum_is_zero L vals \<longrightarrow>
      create_pie_chart L data x y w h t key_field value_field = Inr ([], y))"
proof (intro conjI impI)
  assume "\<not> truthy data \<or> \<not> is_list data"
  then show "create_bar_chart L data x y w h t key_field value_field = Inr ([], y)"
    by (cases data) (auto simp: create_bar_chart_def split: list.splits)
next
  assume "\<not> truthy data \<or> \<not> is_list data"
  then show "create_pie_chart L data x y w h t key_field value_field = Inr ([], y)"
    by (cases data) (auto simp: create_pie_chart_def split: list.splits)
next
  assume "data = PList (first_row # rest)
        \<and> (\<not> str_truthy (infer_key_field key_field first_row)
           \<or> \<not> str_truthy (infer_value_field value_field first_row))"
  then show "create_bar_chart L data x y w h t key_field value_field = Inr ([], y)"
    by (auto simp: create_bar_chart_def Let_def)
next
  assume "data = PList (first_row # rest)
        \<and> (\<not> str_truthy (infer_key_field key_field first_row)
           \<or> \<not> str_truthy (infer_value_field value_field first_row))"
  then show "create_pie_chart L data x y w h t key_field value_field = Inr ([], y)"
    by (auto simp: create_pie_chart_def Let_def)
next
  assume "data = PList (first_row # rest)
        \<and> chart_rows L (\<lambda>s. s) (the (infer_key_field key_field first_row))
             (the (infer_value_field value_field first_row)) (take 8 (first_row # rest))
           = Inr (labels, vals)
        \<and> sum_is_zero L vals"
  then show "create_pie_chart L data x y w h t key_field value_field = Inr ([], y)"
    by (auto simp: create_pie_chart_def Let_def)
qed

text \<open>
  The theorem at an empty list, at a value that is not a list, at a row without
  keys, and at two rows whose amounts are both 0.
\<close>

theorem chart_renderers_degenerate_noop_witness:
  "create_bar_chart sample_lib (PList []) 50 500 400 200 ''T'' None None = Inr ([], 500)
   \<and> create_pie_chart sample_lib (PInt 5) 50 500 400 200 ''T'' None None = Inr ([], 500)
   \<and> create_bar_chart sample_lib (PList [PDict []]) 50 500 400 200 ''T'' None None = Inr ([], 500)
   \<and> create_pie_chart sample_lib (PList [sample_row ''a'' 0, sample_row ''b'' 0])
        50 500 400 200 ''T'' None None = Inr ([], 500)"
proof -
  have a: "create_bar_chart sample_lib (PList []) 50 500 400 200 ''T'' None None = Inr ([], 500)"
    using chart_renderers_degenerate_noop
      [where data = "PList []" and L = sample_lib and x = 50 and y = 500 and w = 400
         and h = 200 and t = "''T''" and key_field = None and value_field = None]
    by simp
  have b: "create_pie_chart sample_lib (PInt 5) 50 500 400 200 ''T'' None None = Inr ([], 500)"
    using chart_renderers_degenerate_noop
      [where data = "PInt 5" and L = sample_lib and x = 50 and y = 500 and w = 400
         and h = 200 and t = "''T''" and key_field = None and value_field = None]
    by simp
  have c: "create_bar_chart sample_lib (PList [PDict []]) 50 500 400 200 ''T'' None None
           = Inr ([], 500)"
    using chart_renderers_degenerate_noop
      [where data = "PList [PDict []]" and first_row = "PDict []" and rest = "[]"
         and L = sample_lib and x = 50 and y = 500 and w = 400
         and h = 200 and t = "''T''" and key_field = None and value_field = None]
    by (simp add: infer_key_field_def dict_keys_def)
  have zero: "float_of_int 0 = Inr (Finite 0)"
    using float_of_small_int [of 0] by simp
  have d: "create_pie_chart sample_lib (PList [sample_row ''a'' 0, sample_row ''b'' 0])
             50 500 400 200 ''T'' None None = Inr ([], 500)"
    using chart_renderers_degenerate_noop
      [where data = "PList [sample_row ''a'' 0, sample_row ''b'' 0]"
         and first_row = "sample_row ''a'' 0" and rest = "[sample_row ''b'' 0]"
         and labels = "[''a'', ''b'']" and vals = "[Finite 0, Finite 0]"
         and L = sample_lib and x = 50 and y = 500 and w = 400
         and h = 200 and t = "''T''" and key_field = None and value_field = None]
    by (simp add: sample_row_def sample_lib_def infer_key_field_def infer_value_field_def
          dict_keys_def row_value_def dict_get_def zero)
  from a b c d show ?thesis by simp
qed



section \<open>Table cells\<close>

lemma str_nat_digits: "set (str_nat n) \<subseteq> set ''0123456789''"
proof (induction n rule: str_nat.induct)
  case (1 n)
  have d: "\<And>k::nat. k < 10 \<Longrightarrow> ''0123456789'' ! k \<in> set ''0123456789''"
    by (rule nth_mem) simp
  show ?case
  proof (cases "n < 10")
    case True
    then show ?thesis using d [of n] by (subst str_nat.simps) simp
  next
    case False
    have "n mod 10 < 10" by simp
    with False 1 d [of "n mod 10"] show ?thesis by (subst str_nat.simps) simp
  qed
qed

lemma str_nat_length_2:
  assumes "n < 100"
  shows "length (str_nat n) \<le> 2"
proof (cases "n < 10")
  case True
  then show ?thesis by (subst str_nat.simps) simp
next
  case False
  from assms have "n div 10 < 10" by simp
  then have "length (str_nat (n div 10)) = 1" by (subst str_nat.simps) simp
  with False show ?thesis by (subst str_nat.simps) simp
qed

lemma group3_filter: "filter (\<lambda>c. c \<noteq> CHR '','') (group3 ds) = filter (\<lambda>c. c \<noteq> CHR '','') ds"
  by (induction ds rule: group3.induct) simp_all

lemma commas_filter: "filter (\<lambda>c. c \<noteq> CHR '','') (commas ds) = filter (\<lambda>c. c \<noteq> CHR '','') ds"
  by (simp add: commas_def group3_filter flip: rev_filter)

lemma group3_length: "length (group3 ds) = length ds + (length ds - 1) div 3"
  by (induction ds rule: group3.induct) simp_all

lemma commas_length: "length (commas ds) = length ds + (length ds - 1) div 3"
  by (simp add: commas_def group3_length)


lemma table_rows_ok:
  "list_all is_dict items \<Longrightarrow> \<exists>rows. table_rows L columns items = Inr rows"
proof (induction items)
  case Nil
  then show ?case by simp
next
  case (Cons item items)
  then obtain kvs rows where "item = PDict kvs" "table_rows L columns items = Inr rows"
    by (cases item) auto
  then show ?case by (auto simp: table_row_def)
qed

lemma draw_styled_table_ok:
  assumes "kvs \<noteq> []" "list_all is_dict (take (n - 1) rest)" "0 < n"
  shows "\<exists>res. draw_styled_table L (PList (PDict kvs # rest)) x y pw t n = Inr res"
proof -
  from assms have "list_all is_dict (take n (PDict kvs # rest))"
    by (cases n) simp_all
  from table_rows_ok [OF this] obtain rows
    where "table_rows L (dict_keys kvs) (take n (PDict kvs # rest)) = Inr rows" by blast
  with assms(1) show ?thesis
    by (simp add: draw_styled_table_def Let_def dict_keys_def case_prod_beta
          del: table_rows.simps)
qed


lemma fmt_fixed_2_shape:
  "\<exists>digits frac. fmt_fixed_real 2 r = (if r < 0 then ''-'' else '''') @ commas digits @ ''.'' @ frac
      \<and> digits \<noteq> [] \<and> length frac = 2 \<and> set (digits @ frac) \<subseteq> set ''0123456789''"
proof -
  define q where "q = nat (round_half_even (\<bar>r\<bar> * 10 ^ 2))"
  have l: "length (str_nat (q mod 100)) \<le> 2" by (rule str_nat_length_2) simp
  have s: "set (pad_zeros 2 (str_nat (q mod 100))) \<subseteq> set ''0123456789''"
    using str_nat_digits [of "q mod 100"] by (auto simp: pad_zeros_def)
  have n: "str_nat (q div 100) \<noteq> []"
    by (subst str_nat.simps) simp
  have "fmt_fixed_real 2 r = (if r < 0 then ''-'' else '''') @ commas (str_nat (q div 100)) @ ''.''
        @ pad_zeros 2 (str_nat (q mod 100))"
    by (simp add: fmt_fixed_real_def q_def Let_def)
  moreover have "length (pad_zeros 2 (str_nat (q mod 100))) = 2"
    using l by (simp add: pad_zeros_def)
  moreover have "set (str_nat (q div 100) @ pad_zeros 2 (str_nat (q mod 100))) \<subseteq> set ''0123456789''"
    using s str_nat_digits [of "q div 100"] by simp
  ultimately show ?thesis using n by blast
qed

lemma table_rows_dicts:
  "table_rows L columns (map PDict dicts) =
     Inr (map (\<lambda>kvs. map (\<lambda>col. format_cell L (dict_get kvs col (PStr []))) columns) dicts)"
  by (induction dicts) (auto simp: table_row_def)

lemma table_rows_cells:
  "table_rows L columns items = Inr rows \<Longrightarrow> columns \<noteq> [] \<Longrightarrow>
     \<exists>dicts. items = map PDict dicts
       \<and> rows = map (\<lambda>kvs. map (\<lambda>col. format_cell L (dict_get kvs col (PStr []))) columns) dicts"
proof (induction items arbitrary: rows)
  case Nil
  then show ?case by simp
next
  case (Cons item items)
  from Cons.prems obtain cells rows' where
    r: "table_row L columns item = Inr cells" "table_rows L columns items = Inr rows'"
      "rows = cells # rows'"
    by (auto split: sum.splits)
  from r(1) Cons.prems(2) obtain kvs where
    k: "item = PDict kvs" "cells = map (\<lambda>col. format_cell L (dict_get kvs col (PStr []))) columns"
    by (auto simp: table_row_def split: pyval.splits)
  from Cons.IH [OF r(2) Cons.prems(2)] obtain dicts where
    d: "items = map PDict dicts"
      "rows' = map (\<lambda>kvs. map (\<lambda>col. format_cell L (dict_get kvs col (PStr []))) columns) dicts"
    by blast
  show ?case
  proof (intro exI [of _ "kvs # dicts"] conjI)
    show "item # items = map PDict (kvs # dicts)" using k(1) d(1) by simp
    show "rows = map (\<lambda>kvs. map (\<lambda>col. format_cell L (dict_get kvs col (PStr []))) columns)
                   (kvs # dicts)"
      using r(3) k(2) d(2) by simp
  qed
qed

lemma drawn_tables_append: "drawn_tables (ops @ ops') = drawn_tables ops @ drawn_tables ops'"
  by (induction ops rule: drawn_tables.induct) simp_all

lemma draw_styled_table_cells:
  assumes "draw_styled_table L (PList (PDict kvs # rest)) x y pw t n = Inr (ops, y')"
  shows "\<exists>dicts. take n (PDict kvs # rest) = map PDict dicts
           \<and> drawn_tables ops =
               [map (\<lambda>col. title_case L (replace_underscores col)) (dict_keys kvs)
                # map (\<lambda>row. map (\<lambda>col. format_cell L (dict_get row col (PStr []))) (dict_keys kvs))
                    dicts]"
proof -
  let ?items = "take n (PDict kvs # rest)"
  from assms obtain rows where rows: "table_rows L (dict_keys kvs) ?items = Inr rows"
    by (cases "table_rows L (dict_keys kvs) ?items")
       (simp_all add: draw_styled_table_def Let_def case_prod_beta del: table_rows.simps)
  from assms rows have cols: "dict_keys kvs \<noteq> []"
    by (auto simp: draw_styled_table_def Let_def case_prod_beta simp del: table_rows.simps
          split: if_splits)
  from table_rows_cells [OF rows cols] obtain dicts where
    d: "?items = map PDict dicts"
      "rows = map (\<lambda>row. map (\<lambda>col. format_cell L (dict_get row col (PStr []))) (dict_keys kvs))
                dicts"
    by blast
  from assms rows cols have
    "drawn_tables ops =
       [map (\<lambda>col. title_case L (replace_underscores col)) (dict_keys kvs) # rows]"
    by (auto simp: draw_styled_table_def Let_def case_prod_beta drawn_tables_append
          simp del: table_rows.simps split: if_splits)
  with d show ?thesis by blast
qed

text \<open>
  Claim C6. A table cell holding a finite float is formatted with two decimals and
  commas between the thousands of its integer part; a NaN prints as \<open>nan\<close>, an
  infinity as \<open>inf\<close> or \<open>-inf\<close>, the negative zero as \<open>-0.00\<close>. A cell holding an int
  has the commas only (a bool is an int to \<^verbatim>\<open>isinstance\<close> and comes out as 1 or 0),
  and every value that is not a number is \<^verbatim>\<open>str(value)\<close>; 1234.5 gives \<open>1,234.50\<close>
  and 1234 gives \<open>1,234\<close>. The grouping only inserts commas, one for each full group
  of three digits after the first digit. A table the renderer draws has been made
  of dict rows only, and what it hands to the canvas is the header row followed by
  these cell texts, row by row and column by column.
\<close>

theorem table_cell_formatting:
  "format_cell L (PFloat (Finite 1234.5)) = ''1,234.50''
   \<and> format_cell L (PInt 1234) = ''1,234''
   \<and> (\<exists>digits frac.
         format_cell L (PFloat (Finite r))
           = (if r < 0 then ''-'' else '''') @ commas digits @ ''.'' @ frac
         \<and> digits \<noteq> [] \<and> length frac = 2 \<and> set (digits @ frac) \<subseteq> set ''0123456789'')
   \<and> format_cell L (PFloat NegZero) = ''-0.00''
   \<and> format_cell L (PFloat NaN) = ''nan''
   \<and> format_cell L (PFloat PosInf) = ''inf''
   \<and> format_cell L (PFloat NegInf) = ''-inf''
   \<and> format_cell L (PInt i) = (if i < 0 then ''-'' else '''') @ commas (str_nat (nat \<bar>i\<bar>))
   \<and> format_cell L (PBool b) = (if b then ''1'' else ''0'')
   \<and> (\<not> is_number v \<longrightarrow> format_cell L v = str_of L v)
   \<and> filter (\<lambda>c. c \<noteq> CHR '','') (commas ds) = filter (\<lambda>c. c \<noteq> CHR '','') ds
   \<and> length (commas ds) = length ds + (length ds - 1) div 3
   \<and> (draw_styled_table L (PList (PDict kvs # rest)) x y pw t n = Inr (ops, y') \<longrightarrow>
        (\<exists>dicts. take n (PDict kvs # rest) = map PDict dicts
           \<and> drawn_tables ops =
               [map (\<lambda>col. title_case L (replace_underscores col)) (dict_keys kvs)
                # map (\<lambda>row. map (\<lambda>col. format_cell L (dict_get row col (PStr [])))
                                (dict_keys kvs))
                    dicts]))"
proof -
  have a: "format_cell L (PFloat (Finite 1234.5)) = ''1,234.50''"
    by (simp add: format_cell_def fmt_fixed_real_def round_half_even_def commas_def
          pad_zeros_def str_nat.simps)
  have b: "format_cell L (PInt 1234) = ''1,234''"
    by (simp add: format_cell_def fmt_int_grouped_def commas_def str_nat.simps)
  have c: "format_cell L (PFloat (Finite r)) = fmt_fixed_real 2 r"
    by (simp add: format_cell_def)
  have z: "format_cell L (PFloat NegZero) = ''-0.00''
      \<and> format_cell L (PFloat NaN) = ''nan''
      \<and> format_cell L (PFloat PosInf) = ''inf''
      \<and> format_cell L (PFloat NegInf) = ''-inf''"
    by (simp add: format_cell_def numeral_2_eq_2)
  have d: "format_cell L (PInt i) = (if i < 0 then ''-'' else '''') @ commas (str_nat (nat \<bar>i\<bar>))"
    by (simp add: format_cell_def fmt_int_grouped_def)
  have e: "format_cell L (PBool b) = (if b then ''1'' else ''0'')"
    by (simp add: format_cell_def fmt_int_grouped_def commas_def str_nat.simps)
  have f: "\<not> is_number v \<longrightarrow> format_cell L v = str_of L v"
    by (simp add: format_cell_def)
  have g: "draw_styled_table L (PList (PDict kvs # rest)) x y pw t n = Inr (ops, y') \<longrightarrow>
        (\<exists>dicts. take n (PDict kvs # rest) = map PDict dicts
           \<and> drawn_tables ops =
               [map (\<lambda>col. title_case L (replace_underscores col)) (dict_keys kvs)
                # map (\<lambda>row. map (\<lambda>col. format_cell L (dict_get row col (PStr [])))
                                (dict_keys kvs))
                    dicts])"
    using draw_styled_table_cells [of L kvs rest x y pw t n ops y'] by blast
  show ?thesis
    using a b z d e f g fmt_fixed_2_shape [of r] commas_filter [of ds] commas_length [of ds]
    unfolding c by blast
qed

text \<open>
  A table of two rows: the cells of the first are a float, an int, a text and
  nothing, those of the second a negative float, a bool and a negative int.
\<close>

theorem table_cell_formatting_witness:
  "(case draw_styled_table sample_lib
          (PList [PDict [(''price'', PFloat (Finite 1234.5)), (''units'', PInt 1234),
                         (''note'', PStr ''n/a''), (''ref'', PNone)],
                  PDict [(''price'', PFloat (Finite (- 0.125))), (''units'', PBool True),
                         (''note'', PInt (- 1234567))]])
          50 500 600 ''Rows'' 15 of
      Inr (ops, y') \<Rightarrow>
        drawn_tables ops = [[[''price'', ''units'', ''note'', ''ref''],
                             [''1,234.50'', ''1,234'', ''n/a'', ''None''],
                             [''-0.12'', ''1'', ''-1,234,567'', '''']]]
    | Inl e \<Rightarrow> False)"
proof -
  let ?first = "[(''price'', PFloat (Finite 1234.5)), (''units'', PInt 1234),
                 (''note'', PStr ''n/a''), (''ref'', PNone)]"
  let ?second = "[(''price'', PFloat (Finite (- 0.125))), (''units'', PBool True),
                  (''note'', PInt (- 1234567))]"
  obtain ops y' where run:
    "draw_styled_table sample_lib (PList [PDict ?first, PDict ?second]) 50 500 600 ''Rows'' 15
       = Inr (ops, y')"
    using draw_styled_table_ok [of ?first 15 "[PDict ?second]" sample_lib 50 500 600 "''Rows''"]
    by auto
  have cells: "map (\<lambda>row. map (\<lambda>col. format_cell sample_lib (dict_get row col (PStr [])))
                            (dict_keys ?first)) [?first, ?second]
      = [[''1,234.50'', ''1,234'', ''n/a'', ''None''], [''-0.12'', ''1'', ''-1,234,567'', '''']]"
    by (simp add: format_cell_def fmt_fixed_real_def fmt_int_grouped_def round_half_even_def
          commas_def pad_zeros_def str_nat.simps dict_keys_def dict_get_def sample_lib_def)
  have heads: "map (\<lambda>col. title_case sample_lib (replace_underscores col)) (dict_keys ?first)
      = [''price'', ''units'', ''note'', ''ref'']"
    by (simp add: dict_keys_def replace_underscores_def sample_lib_def)
  have "\<exists>dicts. take 15 [PDict ?first, PDict ?second] = map PDict dicts
      \<and> drawn_tables ops =
       [map (\<lambda>col. title_case sample_lib (replace_underscores col)) (dict_keys ?first)
        # map (\<lambda>row. map (\<lambda>col. format_cell sample_lib (dict_get row col (PStr [])))
                        (dict_keys ?first)) dicts]"
    using table_cell_formatting
      [where L = sample_lib and kvs = ?first and rest = "[PDict ?second]" and x = 50 and y = 500
         and pw = 600 and t = "''Rows''" and n = 15 and ops = ops and y' = y'
         and r = 0 and i = 0 and b = True and v = PNone and ds = "[]"]
      run
    by blast
  then obtain dicts where d: "take 15 [PDict ?first, PDict ?second] = map PDict dicts"
    and t: "drawn_tables ops =
       [map (\<lambda>col. title_case sample_lib (replace_underscores col)) (dict_keys ?first)
        # map (\<lambda>row. map (\<lambda>col. format_cell sample_lib (dict_get row col (PStr [])))
                        (dict_keys ?first)) dicts]"
    by blast
  from d have "dicts = [?first, ?second]"
    by (auto simp: Cons_eq_map_conv)
  with t cells heads have "drawn_tables ops = [[[''price'', ''units'', ''note'', ''ref''],
                             [''1,234.50'', ''1,234'', ''n/a'', ''None''],
                             [''-0.12'', ''1'', ''-1,234,567'', '''']]]"
    by simp
  with run show ?thesis by simp
qed

text \<open>
  A cell holding a NaN or an infinity has no decimals: the table drawn for one row
  with the three of them shows \<open>nan\<close>, \<open>inf\<close> and \<open>-inf\<close>.
\<close>

theorem table_cell_formatting_counterexample:
  "(case draw_styled_table sample_lib
          (PList [PDict [(''a'', PFloat NaN), (''b'', PFloat PosInf), (''c'', PFloat NegInf)]])
          50 500 600 [] 15 of
      Inr (ops, y') \<Rightarrow> drawn_tables ops = [[[''a'', ''b'', ''c''], [''nan'', ''inf'', ''-inf'']]]
    | Inl e \<Rightarrow> False)"
  by (simp add: draw_styled_table_def table_row_def format_cell_def dict_keys_def dict_get_def
        replace_underscores_def sample_lib_def Let_def)

section \<open>Empty sections\<close>

text \<open>
  Claim C8. A section whose collection (or summary text) is empty emits no operation
  and leaves the cursor where it was: the summary, the metric cards, the insights,
  the findings, the recommendations, each of the two columns and, when both are
  empty, the two-column block; the two renderers with a guard of their own do the
  same on an empty sequence. A report with nothing but its title, rendered without
  query data, is the header followed by the footer.
\<close>

theorem empty_sections_emit_nothing:
  "(executive_summary report = [] \<longrightarrow> summary_section L report x y = ([], y))
   \<and> (key_metrics report = [] \<longrightarrow> metrics_section L report x y = ([], y))
   \<and> (insights report = [] \<longrightarrow> insights_section L report x y = ([], y))
   \<and> (findings report = [] \<longrightarrow> findings_section L report x y = ([], y))
   \<and> (recommendations report = [] \<longrightarrow> recommendations_section L report x y = ([], y))
   \<and> (limitations report = [] \<longrightarrow> limitations_column L report x y lowest = ([], lowest))
   \<and> (next_steps report = [] \<longrightarrow> next_steps_column L report x cw y lowest = ([], lowest))
   \<and> (limitations report = [] \<and> next_steps report = [] \<longrightarrow>
        columns_section L report x y = ([], y))
   \<and> draw_metric_cards L [] x y pw = ([], y)
   \<and> draw_insights_section L [] x y pw = ([], y)
   \<and> (executive_summary report = [] \<and> key_metrics report = [] \<and> insights report = []
        \<and> findings report = [] \<and> recommendations report = [] \<and> limitations report = []
        \<and> next_steps report = [] \<longrightarrow>
        write_visual_pdf L today report PNone chart_type =
          Inr (fst (draw_header today (title report) page_width page_height)
               @ footer report (2 * cm)))"
proof -
  have whole:
    "executive_summary report = [] \<and> key_metrics report = [] \<and> insights report = []
        \<and> findings report = [] \<and> recommendations report = [] \<and> limitations report = []
        \<and> next_steps report = [] \<longrightarrow>
        write_visual_pdf L today report PNone chart_type =
          Inr (fst (draw_header today (title report) page_width page_height)
               @ footer report (2 * cm))"
    by (simp add: write_visual_pdf_def document_body_def summary_section_def
          metrics_section_def insights_section_def findings_section_def
          recommendations_section_def columns_section_def charts_section_def
          table_section_def Let_def split: prod.splits)
  show ?thesis
    using whole
    by (simp add: summary_section_def metrics_section_def insights_section_def
          findings_section_def recommendations_section_def limitations_column_def
          next_steps_column_def columns_section_def draw_metric_cards_def
          draw_insights_section_def)
qed

text \<open>The report that has only a title, on a day that prints as \<open>May 01, 2025\<close>.\<close>

theorem empty_sections_emit_nothing_witness:
  "write_visual_pdf sample_lib ''May 01, 2025'' sample_report PNone ''Auto'' =
     Inr (fst (draw_header ''May 01, 2025'' ''Q1 Sales'' page_width page_height)
          @ footer sample_report (2 * cm))
   \<and> summary_section sample_lib sample_report 50 400 = ([], 400)
   \<and> metrics_section sample_lib sample_report 50 400 = ([], 400)
   \<and> insights_section sample_lib sample_report 50 400 = ([], 400)
   \<and> findings_section sample_lib sample_report 50 400 = ([], 400)
   \<and> recommendations_section sample_lib sample_report 50 400 = ([], 400)
   \<and> limitations_column sample_lib sample_report 50 400 400 = ([], 400)
   \<and> next_steps_column sample_lib sample_report 50 200 400 400 = ([], 400)
   \<and> columns_section sample_lib sample_report 50 400 = ([], 400)"
  using empty_sections_emit_nothing
    [where L = sample_lib and report = sample_report and today = "''May 01, 2025''"
       and chart_type = "''Auto''" and x = 50 and y = 400 and lowest = 400 and cw = 200]
  by (simp add: sample_report_def)

section \<open>Where charts come from\<close>

text \<open>
  No renderer but the two chart renderers emits a chart operation. The lemmas say so
  section by section; the loops need an induction over their items.
\<close>

lemma no_chart_Nil: "no_chart []"
  by (simp add: no_chart_def)

lemma no_chart_Cons: "no_chart (o1 # ops) = (\<not> is_chart o1 \<and> no_chart ops)"
  by (simp add: no_chart_def)

lemma no_chart_append: "no_chart (a @ b) = (no_chart a \<and> no_chart b)"
  by (simp add: no_chart_def)

lemmas no_chart_simps = no_chart_Nil no_chart_Cons no_chart_append is_chart_def

lemma no_chart_filter: "no_chart ops \<Longrightarrow> filter is_bar_chart ops = [] \<and> filter is_pie_chart ops = []"
  by (induction ops) (auto simp: no_chart_simps)

lemma draw_lines_plain: "no_chart (fst (draw_lines tx off step lines y))"
  by (induction lines arbitrary: y) (simp_all add: no_chart_simps case_prod_beta)

lemma draw_header_plain: "no_chart (fst (draw_header today t pw ph))"
  by (simp add: draw_header_def Let_def no_chart_simps)

lemma footer_plain: "no_chart (footer report x)"
  by (simp add: footer_def no_chart_simps)

lemma section_gap_plain: "no_chart (fst (section_gap thr y))"
  by (simp add: section_gap_def no_chart_simps)

lemma continued_title_plain: "no_chart (continued_title x c h)"
  by (simp add: continued_title_def no_chart_simps)

lemma summary_section_plain: "no_chart (fst (summary_section L report x y))"
  by (simp add: summary_section_def no_chart_simps draw_lines_plain)

lemma draw_card_plain: "no_chart (draw_card L cx cy m)"
  by (simp add: draw_card_def card_content_def no_chart_simps split: pyval.splits list.splits)

lemma cards_loop_plain: "no_chart (fst (cards_loop L x i ms sy))"
  by (induction ms arbitrary: i sy)
     (simp_all add: no_chart_simps Let_def case_prod_beta draw_card_plain)

lemma draw_metric_cards_plain: "no_chart (fst (draw_metric_cards L ms x y pw))"
  by (simp add: draw_metric_cards_def no_chart_simps Let_def case_prod_beta cards_loop_plain)

lemma metrics_section_plain: "no_chart (fst (metrics_section L report x y))"
  by (simp add: metrics_section_def no_chart_simps case_prod_beta section_gap_plain
        draw_metric_cards_plain)

lemma insights_loop_plain: "no_chart (fst (insights_loop L x i items y))"
  by (induction items arbitrary: i y)
     (simp_all add: no_chart_simps Let_def case_prod_beta continued_title_plain
        insight_badge_def draw_lines_plain)

lemma insights_section_plain: "no_chart (fst (insights_section L report x y))"
  by (simp add: insights_section_def draw_insights_section_def no_chart_simps case_prod_beta
        section_gap_plain insights_loop_plain)

lemma findings_loop_plain: "no_chart (fst (findings_loop L x items y))"
  by (induction items arbitrary: y)
     (simp_all add: no_chart_simps Let_def case_prod_beta continued_title_plain
        finding_bullet_def draw_lines_plain)

lemma findings_section_plain: "no_chart (fst (findings_section L report x y))"
  by (simp add: findings_section_def no_chart_simps case_prod_beta
        section_gap_plain findings_loop_plain)

lemma recommendations_loop_plain: "no_chart (fst (recommendations_loop L x items y))"
  by (induction items arbitrary: y)
     (simp_all add: no_chart_simps Let_def case_prod_beta continued_title_plain
        check_icon_def draw_lines_plain)

lemma recommendations_section_plain: "no_chart (fst (recommendations_section L report x y))"
  by (simp add: recommendations_section_def no_chart_simps case_prod_beta
        section_gap_plain recommendations_loop_plain)

lemma column_items_plain: "no_chart (fst (column_items L xf xr marker items t))"
  by (induction items arbitrary: t)
     (simp_all add: no_chart_simps Let_def case_prod_beta draw_lines_plain split: list.splits)

lemma limitations_column_plain: "no_chart (fst (limitations_column L report x y low))"
  by (simp add: limitations_column_def no_chart_simps case_prod_beta column_items_plain)

lemma next_steps_column_plain: "no_chart (fst (next_steps_column L report x cw y low))"
  by (simp add: next_steps_column_def no_chart_simps case_prod_beta column_items_plain)

lemma columns_section_plain: "no_chart (fst (columns_section L report x y))"
  by (simp add: columns_section_def no_chart_append no_chart_Nil case_prod_beta Let_def
        section_gap_plain limitations_column_plain next_steps_column_plain)

lemma draw_styled_table_plain:
  "draw_styled_table L data x y pw t n = Inr (ops, y') \<Longrightarrow> no_chart ops"
  by (auto simp: draw_styled_table_def no_chart_simps Let_def
        split: pyval.splits list.splits sum.splits if_splits)

lemma table_section_plain: "table_section L data x y = Inr (ops, y') \<Longrightarrow> no_chart ops"
  using section_gap_plain [of 10 y]
  by (auto simp: table_section_def no_chart_simps case_prod_beta
        split: sum.splits if_splits dest: draw_styled_table_plain)

section \<open>Chart gating in the composer\<close>

text \<open>
  The chart operations of a rendered document are those of its charts section.
\<close>

lemma document_charts:
  assumes "write_visual_pdf L today report query_data chart_type = Inr ops"
  shows "\<exists>chart_ops y y'. charts_section L chart_type query_data (2 * cm) y = Inr (chart_ops, y')
           \<and> filter is_bar_chart ops = filter is_bar_chart chart_ops
           \<and> filter is_pie_chart ops = filter is_pie_chart chart_ops"
proof -
  let ?x = "2 * cm"
  let ?h = "draw_header today (title report) page_width page_height"
  let ?s = "summary_section L report ?x (snd ?h)"
  from assms obtain body where body: "document_body L report query_data chart_type ?x (snd ?h) = Inr body"
    and ops: "ops = fst ?h @ body"
    by (auto simp: write_visual_pdf_def Let_def case_prod_beta split: sum.splits)
  from body obtain o2 y2 where c: "charts_section L chart_type query_data ?x (snd ?s) = Inr (o2, y2)"
    by (auto simp: document_body_def Let_def case_prod_beta split: sum.splits)
  let ?m = "metrics_section L report ?x y2"
  from body c obtain o4 y4 where t: "table_section L query_data ?x (snd ?m) = Inr (o4, y4)"
    by (auto simp: document_body_def Let_def case_prod_beta split: sum.splits)
  let ?i = "insights_section L report ?x y4"
  let ?f = "findings_section L report ?x (snd ?i)"
  let ?r = "recommendations_section L report ?x (snd ?f)"
  let ?c = "columns_section L report ?x (snd ?r)"
  from body c t have b: "body = fst ?s @ o2 @ fst ?m @ o4 @ fst ?i @ fst ?f @ fst ?r @ fst ?c
      @ footer report ?x"
    by (simp add: document_body_def Let_def case_prod_beta)
  have plain: "no_chart (fst ?h)" "no_chart (fst ?s)" "no_chart (fst ?m)" "no_chart o4"
    "no_chart (fst ?i)" "no_chart (fst ?f)" "no_chart (fst ?r)" "no_chart (fst ?c)"
    "no_chart (footer report ?x)"
    using t by (simp_all add: draw_header_plain summary_section_plain metrics_section_plain
        table_section_plain insights_section_plain findings_section_plain
        recommendations_section_plain columns_section_plain footer_plain)
  have "filter is_bar_chart ops = filter is_bar_chart o2 \<and> filter is_pie_chart ops = filter is_pie_chart o2"
    unfolding ops b using plain [THEN no_chart_filter] by simp
  with c show ?thesis by blast
qed


lemma bar_drawn:
  assumes "dict_keys kvs = key # keys" "key \<noteq> []" "vf \<noteq> []"
    and "create_bar_chart L (PList (PDict kvs # rest)) x y w h t None (Some vf) = Inr (bar_ops, y')"
  shows "\<exists>chart. is_bar_chart chart \<and> bar_ops = [chart]"
  using assms
  by (auto simp: create_bar_chart_def infer_key_field_def infer_value_field_def chart_rows_eq
        Let_def split: option.splits)

lemma pie_drawn:
  assumes "dict_keys kvs = key # keys" "key \<noteq> []" "vf \<noteq> []"
    and "chart_rows L (\<lambda>s. s) key vf (take 8 (PDict kvs # rest)) = Inr (labels, vals)"
    and "\<not> sum_is_zero L vals"
    and "create_pie_chart L (PList (take 8 (PDict kvs # rest))) x y w h t None (Some vf)
           = Inr (pie_ops, y')"
  shows "pie_ops = [PieChart x (y - h) w h t (map pie_label (zip labels vals)) vals]"
proof -
  from assms(4) have "vals \<noteq> []"
    unfolding chart_rows_eq by auto
  with assms show ?thesis
    by (auto simp: create_pie_chart_def infer_key_field_def infer_value_field_def Let_def
          simp del: chart_rows.simps split: option.splits)
qed

lemma create_bar_chart_ops:
  "create_bar_chart L d x y w h t kf vf = Inr (bar_ops, y') \<Longrightarrow> filter is_pie_chart bar_ops = []"
  by (auto simp: create_bar_chart_def chart_rows_eq Let_def
        split: pyval.splits list.splits if_splits option.splits)

lemma create_pie_chart_ops:
  "create_pie_chart L d x y w h t kf vf = Inr (pie_ops, y') \<Longrightarrow> filter is_bar_chart pie_ops = []"
  by (auto simp: create_pie_chart_def chart_rows_eq Let_def
        split: pyval.splits list.splits if_splits option.splits)


lemma draw_charts_split:
  assumes "draw_charts L chart_type rows nf x y = Inr (chart_ops, y')"
  shows "\<exists>bar_ops y1 pie_ops. chart_ops = bar_ops @ pie_ops
     \<and> (if chart_type \<in> set [''Auto'', ''Bar'', ''Both''] \<and> length rows \<le> 15
         then create_bar_chart L (PList rows) x y (page_width - 2 * x) 200
                ''Data Distribution'' None nf = Inr (bar_ops, y1)
         else bar_ops = [] \<and> y1 = y)
     \<and> (if chart_type \<in> set [''Auto'', ''Pie'', ''Both''] \<and> 3 \<le> length rows
         then create_pie_chart L (PList (take 8 rows)) x y1 (page_width - 2 * x) 200
                ''Top Items Distribution'' None nf = Inr (pie_ops, y')
         else pie_ops = [] \<and> y' = y1)"
proof -
  define bc where "bc = (chart_type \<in> set [''Auto'', ''Bar'', ''Both''] \<and> length rows \<le> 15)"
  define pc where "pc = (chart_type \<in> set [''Auto'', ''Pie'', ''Both''] \<and> 3 \<le> length rows)"
  define bar where "bar = create_bar_chart L (PList rows) x y (page_width - 2 * x) 200
                ''Data Distribution'' None nf"
  define pie where "pie = (\<lambda>y1. create_pie_chart L (PList (take 8 rows)) x y1
                (page_width - 2 * x) 200 ''Top Items Distribution'' None nf)"
  have run: "draw_charts L chart_type rows nf x y =
      (case (if bc then bar else Inr ([], y)) of
         Inl e \<Rightarrow> Inl e
       | Inr (bar_ops, y1) \<Rightarrow>
           (case (if pc then pie y1 else Inr ([], y1)) of
              Inl e \<Rightarrow> Inl e
            | Inr (pie_ops, y2) \<Rightarrow> Inr (bar_ops @ pie_ops, y2)))"
    unfolding draw_charts_def bc_def pc_def bar_def pie_def ..
  note res = assms [unfolded run]
  have goal: "\<exists>bar_ops y1 pie_ops. chart_ops = bar_ops @ pie_ops
     \<and> (if bc then bar = Inr (bar_ops, y1) else bar_ops = [] \<and> y1 = y)
     \<and> (if pc then pie y1 = Inr (pie_ops, y') else pie_ops = [] \<and> y' = y1)"
  proof (cases bc)
    case True
    note b = this
    show ?thesis
    proof (cases bar)
      case (Inl e)
      with res b show ?thesis by simp
    next
      case (Inr r)
      obtain bar_ops y1 where r: "r = (bar_ops, y1)" by (cases r)
      show ?thesis
      proof (cases pc)
        case True
        note p = this
        show ?thesis
        proof (cases "pie y1")
          case (Inl e)
          with res b p Inr r show ?thesis by simp
        next
          case (Inr q)
          obtain pie_ops y2 where q: "q = (pie_ops, y2)" by (cases q)
          from res b p \<open>bar = Inr r\<close> r Inr q
          have "chart_ops = bar_ops @ pie_ops" "y' = y2" by simp_all
          with b p \<open>bar = Inr r\<close> r Inr q show ?thesis by auto
        qed
      next
        case False
        from res b False Inr r have "chart_ops = bar_ops @ []" "y' = y1"
          by simp_all
        with b False Inr r show ?thesis by auto
      qed
    qed
  next
    case False
    note b = this
    show ?thesis
    proof (cases pc)
      case True
      note p = this
      show ?thesis
      proof (cases "pie y")
        case (Inl e)
        with res b p show ?thesis by simp
      next
        case (Inr q)
        obtain pie_ops y2 where q: "q = (pie_ops, y2)" by (cases q)
        from res b p Inr q have "chart_ops = [] @ pie_ops" "y' = y2"
          by simp_all
        with b p Inr q show ?thesis by auto
      qed
    next
      case False
      from res b False have "chart_ops = [] @ []" "y' = y" by simp_all
      with b False show ?thesis by auto
    qed
  qed
  then show ?thesis unfolding bc_def pc_def bar_def pie_def .
qed

lemma charts_section_field:
  assumes "find_numeric_field kvs = Some vf" "vf \<noteq> []" "chart_type \<noteq> ''None''"
  shows "charts_section L chart_type (PList (PDict kvs # rest)) x y =
           draw_charts L chart_type (PDict kvs # rest) (Some vf) x y"
  using assms by (simp add: charts_section_def)

lemma in_bar_policies: "chart_type \<in> set [''Auto'', ''Bar'', ''Both''] \<Longrightarrow> chart_type \<noteq> ''None''"
  by auto

lemma in_pie_policies: "chart_type \<in> set [''Auto'', ''Pie'', ''Both''] \<Longrightarrow> chart_type \<noteq> ''None''"
  by auto


text \<open>
  Rendering completes on a row-set whose row 0 is a dict with at least one key and
  whose next 14 rows are dicts, when \<^verbatim>\<open>renderPDF.draw\<close> raises on no chart: the table
  finds a dict in each row it reads.
\<close>

lemma draw_charts_total:
  assumes "\<And>chart. render_error L chart = None"
  shows "\<exists>res. draw_charts L chart_type rows nf x y = Inr res"
proof -
  obtain bar_ops y1 where
    "(if chart_type \<in> set [''Auto'', ''Bar'', ''Both''] \<and> length rows \<le> 15
      then create_bar_chart L (PList rows) x y (page_width - 2 * x) 200
             ''Data Distribution'' None nf
      else Inr ([], y)) = Inr (bar_ops, y1)"
    using create_bar_chart_total [of L "PList rows" x y "page_width - 2 * x" 200
        "''Data Distribution''" None nf, OF assms]
    by (cases "chart_type \<in> set [''Auto'', ''Bar'', ''Both''] \<and> length rows \<le> 15") auto
  moreover obtain pie_ops y2 where
    "(if chart_type \<in> set [''Auto'', ''Pie'', ''Both''] \<and> length rows \<ge> 3
      then create_pie_chart L (PList (take 8 rows)) x y1 (page_width - 2 * x) 200
             ''Top Items Distribution'' None nf
      else Inr ([], y1)) = Inr (pie_ops, y2)"
    using create_pie_chart_total [of L "PList (take 8 rows)" x y1 "page_width - 2 * x" 200
        "''Top Items Distribution''" None nf, OF assms]
    by (cases "chart_type \<in> set [''Auto'', ''Pie'', ''Both''] \<and> length rows \<ge> 3") auto
  ultimately show ?thesis unfolding draw_charts_def by simp
qed

lemma charts_section_total:
  assumes "\<And>chart. render_error L chart = None"
  shows "\<exists>res. charts_section L chart_type query_data x y = Inr res"
  using draw_charts_total [OF assms]
  by (simp add: charts_section_def Let_def split: pyval.splits list.splits)

lemma sample_lib_draws: "render_error sample_lib chart = None"
  by (simp add: sample_lib_def)

lemma write_visual_pdf_ok:
  assumes "kvs \<noteq> []" "list_all is_dict (take 14 rest)"
    and "\<And>chart. render_error L chart = None"
  shows "\<exists>ops. write_visual_pdf L today report (PList (PDict kvs # rest)) chart_type = Inr ops"
proof -
  let ?qd = "PList (PDict kvs # rest)"
  obtain o2 y2 where c: "charts_section L chart_type ?qd (2 * cm)
      (snd (summary_section L report (2 * cm)
         (snd (draw_header today (title report) page_width page_height)))) = Inr (o2, y2)"
    using charts_section_total [OF assms(3)] by (metis surj_pair)
  let ?g = "section_gap 10 (snd (metrics_section L report (2 * cm) y2))"
  from assms obtain o4 y4 where "draw_styled_table L ?qd (2 * cm) (snd ?g) page_width
      ''Detailed Results'' 15 = Inr (o4, y4)"
    using draw_styled_table_ok [of kvs 15 rest L "2 * cm" "snd ?g" page_width "''Detailed Results''"]
    by auto
  then have t: "table_section L ?qd (2 * cm) (snd (metrics_section L report (2 * cm) y2))
      = Inr (fst ?g @ o4, y4)"
    by (simp add: table_section_def case_prod_beta)
  show ?thesis
    by (simp add: write_visual_pdf_def document_body_def Let_def case_prod_beta c t)
qed

text \<open>
  Claim C1, as the code has it. Under the policy \<open>None\<close> the charts section emits no
  operation and leaves the cursor, whatever the row-set, and a document that was
  rendered holds no chart. In every document that was rendered (the render call
  raised nothing), when row 0 of the row-set is a dict whose first key is not the
  empty string, and its first numeric-valued field has a name that is not empty:
  with a policy among Auto, Bar, Both and at most 15 rows there is exactly one bar
  chart; with a policy among Auto, Pie, Both, at least 3 rows, and values of the
  first 8 rows for which \<^verbatim>\<open>sum(values) == 0\<close> is false, there is exactly one pie
  chart, and it shows those values, one for each dict among the first 8 rows. The
  render call completes when row 0 is a dict with at least one key, the next 14
  rows are dicts, and \<^verbatim>\<open>renderPDF.draw\<close> raises on no chart.
\<close>

theorem chart_gating:
  "charts_section L ''None'' query_data cx cy = Inr ([], cy)
   \<and> (write_visual_pdf L today report query_data chart_type = Inr ops \<longrightarrow>
        (chart_type = ''None'' \<longrightarrow> filter is_bar_chart ops = [] \<and> filter is_pie_chart ops = [])
      \<and> (query_data = PList (PDict kvs # rest) \<and> dict_keys kvs = key # keys \<and> key \<noteq> []
           \<and> find_numeric_field kvs = Some value_field \<and> value_field \<noteq> [] \<longrightarrow>
           (chart_type \<in> set [''Auto'', ''Bar'', ''Both''] \<and> length (PDict kvs # rest) \<le> 15 \<longrightarrow>
              length (filter is_bar_chart ops) = 1)
         \<and> (chart_type \<in> set [''Auto'', ''Pie'', ''Both''] \<and> 3 \<le> length (PDict kvs # rest)
              \<and> chart_rows L (\<lambda>s. s) key value_field (take 8 (PDict kvs # rest))
                  = Inr (labels, vals)
              \<and> \<not> sum_is_zero L vals \<longrightarrow>
              (\<exists>x y w h t. filter is_pie_chart ops
                   = [PieChart x y w h t (map pie_label (zip labels vals)) vals])
            \<and> length vals = length (dict_rows (take 8 (PDict kvs # rest))))))
   \<and> (query_data = PList (PDict kvs # rest) \<and> kvs \<noteq> [] \<and> list_all is_dict (take 14 rest)
        \<and> (\<forall>chart. render_error L chart = None) \<longrightarrow>
        (\<exists>out. write_visual_pdf L today report query_data chart_type = Inr out))"
proof (intro conjI)
  show "charts_section L ''None'' query_data cx cy = Inr ([], cy)"
    by (simp add: charts_section_def)
next
  show "query_data = PList (PDict kvs # rest) \<and> kvs \<noteq> [] \<and> list_all is_dict (take 14 rest)
        \<and> (\<forall>chart. render_error L chart = None) \<longrightarrow>
        (\<exists>out. write_visual_pdf L today report query_data chart_type = Inr out)"
    using write_visual_pdf_ok [of kvs rest L today report chart_type] by simp
next
  show "write_visual_pdf L today report query_data chart_type = Inr ops \<longrightarrow>
        (chart_type = ''None'' \<longrightarrow> filter is_bar_chart ops = [] \<and> filter is_pie_chart ops = [])
      \<and> (query_data = PList (PDict kvs # rest) \<and> dict_keys kvs = key # keys \<and> key \<noteq> []
           \<and> find_numeric_field kvs = Some value_field \<and> value_field \<noteq> [] \<longrightarrow>
           (chart_type \<in> set [''Auto'', ''Bar'', ''Both''] \<and> length (PDict kvs # rest) \<le> 15 \<longrightarrow>
              length (filter is_bar_chart ops) = 1)
         \<and> (chart_type \<in> set [''Auto'', ''Pie'', ''Both''] \<and> 3 \<le> length (PDict kvs # rest)
              \<and> chart_rows L (\<lambda>s. s) key value_field (take 8 (PDict kvs # rest))
                  = Inr (labels, vals)
              \<and> \<not> sum_is_zero L vals \<longrightarrow>
              (\<exists>x y w h t. filter is_pie_chart ops
                   = [PieChart x y w h t (map pie_label (zip labels vals)) vals])
            \<and> length vals = length (dict_rows (take 8 (PDict kvs # rest)))))"
  proof (rule impI)
  assume run: "write_visual_pdf L today report query_data chart_type = Inr ops"
  from document_charts [OF run] obtain chart_ops y y'
    where sec: "charts_section L chart_type query_data (2 * cm) y = Inr (chart_ops, y')"
      and bars: "filter is_bar_chart ops = filter is_bar_chart chart_ops"
      and pies: "filter is_pie_chart ops = filter is_pie_chart chart_ops"
    by blast
  have none: "chart_type = ''None'' \<longrightarrow> filter is_bar_chart ops = [] \<and> filter is_pie_chart ops = []"
    using sec bars pies by (auto simp: charts_section_def)
  have bar: "length (filter is_bar_chart ops) = 1"
    if shape: "query_data = PList (PDict kvs # rest)" "dict_keys kvs = key # keys" "key \<noteq> []"
       "find_numeric_field kvs = Some value_field" "value_field \<noteq> []"
      and pol: "chart_type \<in> set [''Auto'', ''Bar'', ''Both'']" "length (PDict kvs # rest) \<le> 15"
  proof -
    from sec shape pol(1) have "draw_charts L chart_type (PDict kvs # rest) (Some value_field) (2 * cm) y
        = Inr (chart_ops, y')"
      by (simp add: charts_section_field in_bar_policies del: set_simps)
    from draw_charts_split [OF this] pol obtain bar_ops y1 pie_ops
      where parts: "chart_ops = bar_ops @ pie_ops"
        and b: "create_bar_chart L (PList (PDict kvs # rest)) (2 * cm) y (page_width - 2 * (2 * cm)) 200
                ''Data Distribution'' None (Some value_field) = Inr (bar_ops, y1)"
        and p: "if chart_type \<in> set [''Auto'', ''Pie'', ''Both''] \<and> 3 \<le> length (PDict kvs # rest)
                then create_pie_chart L (PList (take 8 (PDict kvs # rest))) (2 * cm) y1
                       (page_width - 2 * (2 * cm)) 200 ''Top Items Distribution'' None (Some value_field)
                     = Inr (pie_ops, y')
                else pie_ops = [] \<and> y' = y1"
      by (auto simp del: set_simps)
    from bar_drawn [OF shape(2,3,5) b]
    obtain chart where "is_bar_chart chart" "bar_ops = [chart]"
      by auto
    moreover from p have "filter is_bar_chart pie_ops = []"
      by (auto split: if_splits dest: create_pie_chart_ops simp del: set_simps)
    ultimately show ?thesis by (simp add: bars parts)
  qed
  have pie: "(\<exists>x y w h t. filter is_pie_chart ops = [PieChart x y w h t (map pie_label (zip labels vals)) vals])"
    if shape: "query_data = PList (PDict kvs # rest)" "dict_keys kvs = key # keys" "key \<noteq> []"
       "find_numeric_field kvs = Some value_field" "value_field \<noteq> []"
      and pol: "chart_type \<in> set [''Auto'', ''Pie'', ''Both'']" "3 \<le> length (PDict kvs # rest)"
      and vals: "chart_rows L (\<lambda>s. s) key value_field (take 8 (PDict kvs # rest)) = Inr (labels, vals)"
        "\<not> sum_is_zero L vals"
  proof -
    from sec shape pol(1) have "draw_charts L chart_type (PDict kvs # rest) (Some value_field) (2 * cm) y
        = Inr (chart_ops, y')"
      by (simp add: charts_section_field in_pie_policies del: set_simps)
    from draw_charts_split [OF this] pol obtain bar_ops y1 pie_ops
      where parts: "chart_ops = bar_ops @ pie_ops"
        and b: "if chart_type \<in> set [''Auto'', ''Bar'', ''Both''] \<and> length (PDict kvs # rest) \<le> 15
                then create_bar_chart L (PList (PDict kvs # rest)) (2 * cm) y (page_width - 2 * (2 * cm)) 200
                       ''Data Distribution'' None (Some value_field) = Inr (bar_ops, y1)
                else bar_ops = [] \<and> y1 = y"
        and p: "create_pie_chart L (PList (take 8 (PDict kvs # rest))) (2 * cm) y1
                  (page_width - 2 * (2 * cm)) 200 ''Top Items Distribution'' None (Some value_field)
                = Inr (pie_ops, y')"
      by (auto simp del: set_simps)
    from b have "filter is_pie_chart bar_ops = []"
      by (auto split: if_splits dest: create_bar_chart_ops simp del: set_simps)
    moreover from pie_drawn [OF shape(2,3,5) vals p]
    have "pie_ops = [PieChart (2 * cm) (y1 - 200) (page_width - 2 * (2 * cm)) 200
              ''Top Items Distribution'' (map pie_label (zip labels vals)) vals]" .
    ultimately show ?thesis by (simp add: pies parts)
  qed
  have len: "length vals = length (dict_rows (take 8 (PDict kvs # rest)))"
    if "chart_rows L (\<lambda>s. s) key value_field (take 8 (PDict kvs # rest)) = Inr (labels, vals)"
    using that unfolding chart_rows_eq by auto
  from none bar pie len
  show "(chart_type = ''None'' \<longrightarrow> filter is_bar_chart ops = [] \<and> filter is_pie_chart ops = [])
      \<and> (query_data = PList (PDict kvs # rest) \<and> dict_keys kvs = key # keys \<and> key \<noteq> []
           \<and> find_numeric_field kvs = Some value_field \<and> value_field \<noteq> [] \<longrightarrow>
           (chart_type \<in> set [''Auto'', ''Bar'', ''Both''] \<and> length (PDict kvs # rest) \<le> 15 \<longrightarrow>
              length (filter is_bar_chart ops) = 1)
         \<and> (chart_type \<in> set [''Auto'', ''Pie'', ''Both''] \<and> 3 \<le> length (PDict kvs # rest)
              \<and> chart_rows L (\<lambda>s. s) key value_field (take 8 (PDict kvs # rest))
                  = Inr (labels, vals)
              \<and> \<not> sum_is_zero L vals \<longrightarrow>
              (\<exists>x y w h t. filter is_pie_chart ops
                   = [PieChart x y w h t (map pie_label (zip labels vals)) vals])
            \<and> length vals = length (dict_rows (take 8 (PDict kvs # rest)))))"
    by blast
  qed
qed

text \<open>
  Three rows with the amounts 3, 4 and 5: the render completes; there is one bar
  chart and one pie chart under \<open>Both\<close>, no chart under \<open>None\<close>.
\<close>

theorem chart_gating_witness:
  "(case write_visual_pdf sample_lib ''May 01, 2025'' sample_report
           (PList [sample_row ''a'' 3, sample_row ''b'' 4, sample_row ''c'' 5]) ''Both'' of
      Inr ops \<Rightarrow> length (filter is_bar_chart ops) = 1 \<and> length (filter is_pie_chart ops) = 1
    | Inl e \<Rightarrow> False)
   \<and> (case write_visual_pdf sample_lib ''May 01, 2025'' sample_report
           (PList [sample_row ''a'' 3, sample_row ''b'' 4, sample_row ''c'' 5]) ''None'' of
      Inr ops \<Rightarrow> filter is_bar_chart ops = [] \<and> filter is_pie_chart ops = []
    | Inl e \<Rightarrow> False)"
proof -
  let ?kvs = "[(''name'', PStr ''a''), (''amount'', PInt 3)]"
  let ?rest = "[sample_row ''b'' 4, sample_row ''c'' 5]"
  let ?labels = "[''a'', ''b'', ''c'']"
  let ?vals = "[Finite 3, Finite 4, Finite 5]"
  have data: "PList [sample_row ''a'' 3, sample_row ''b'' 4, sample_row ''c'' 5] = PList (PDict ?kvs # ?rest)"
    by (simp add: sample_row_def)
  have ints: "float_of_int 3 = Inr (Finite 3)" "float_of_int 4 = Inr (Finite 4)"
    "float_of_int 5 = Inr (Finite 5)"
    using float_of_small_int [of 3] float_of_small_int [of 4] float_of_small_int [of 5]
    by simp_all
  have rows: "chart_rows sample_lib (\<lambda>s. s) ''name'' ''amount'' (take 8 (PDict ?kvs # ?rest))
      = Inr (?labels, ?vals)"
    by (simp add: sample_row_def sample_lib_def row_value_def dict_get_def ints)
  have sum: "\<not> sum_is_zero sample_lib ?vals"
    by (simp add: sample_lib_def)
  have field: "find_numeric_field ?kvs = Some ''amount''"
    by (simp add: find_numeric_field_def dict_keys_def dict_get_def)
  have draws: "\<forall>chart. render_error sample_lib chart = None"
    by (simp add: sample_lib_def)
  have dicts: "list_all is_dict (take 14 ?rest)"
    by (simp add: sample_row_def)
  note both = chart_gating [where L = sample_lib and today = "''May 01, 2025''"
      and report = sample_report and query_data = "PList (PDict ?kvs # ?rest)"
      and chart_type = "''Both''" and kvs = ?kvs and rest = ?rest and key = "''name''"
      and keys = "[''amount'']" and value_field = "''amount''"
      and labels = ?labels and vals = ?vals and cx = 0 and cy = 0]
  note none = chart_gating [where L = sample_lib and today = "''May 01, 2025''"
      and report = sample_report and query_data = "PList (PDict ?kvs # ?rest)"
      and chart_type = "''None''" and kvs = ?kvs and rest = ?rest and cx = 0 and cy = 0
      and key = "''name''" and keys = "[''amount'']" and value_field = "''amount''"
      and labels = ?labels and vals = ?vals]
  from both draws dicts obtain ops1 where run1: "write_visual_pdf sample_lib ''May 01, 2025''
      sample_report (PList (PDict ?kvs # ?rest)) ''Both'' = Inr ops1"
    by blast
  from none draws dicts obtain ops2 where run2: "write_visual_pdf sample_lib ''May 01, 2025''
      sample_report (PList (PDict ?kvs # ?rest)) ''None'' = Inr ops2"
    by blast
  have "length (filter is_bar_chart ops1) = 1 \<and> length (filter is_pie_chart ops1) = 1"
    using both [where ops = ops1] run1 rows sum field
    by (auto simp: dict_keys_def)
  moreover have "filter is_bar_chart ops2 = [] \<and> filter is_pie_chart ops2 = []"
    using none [where ops = ops2] run2 by simp
  ultimately show ?thesis
    unfolding data by (simp add: run1 run2)
qed

text \<open>
  Three rows whose amounts are all 0, with the policy \<open>Pie\<close>: row 0 has a numeric
  field and there are 3 rows, the render succeeds, and no pie chart is in it.
\<close>

theorem chart_gating_counterexample:
  "find_numeric_field [(''name'', PStr ''a''), (''amount'', PInt 0)] = Some ''amount''
   \<and> (case write_visual_pdf sample_lib ''May 01, 2025'' sample_report
           (PList [PDict [(''name'', PStr ''a''), (''amount'', PInt 0)],
                   sample_row ''b'' 0, sample_row ''c'' 0]) ''Pie'' of
      Inr ops \<Rightarrow> filter is_pie_chart ops = []
    | Inl e \<Rightarrow> False)"
proof -
  let ?kvs = "[(''name'', PStr ''a''), (''amount'', PInt 0)]"
  let ?rest = "[sample_row ''b'' 0, sample_row ''c'' 0]"
  have field: "find_numeric_field ?kvs = Some ''amount''"
    by (simp add: find_numeric_field_def dict_keys_def dict_get_def)
  have zero: "float_of_int 0 = Inr (Finite 0)"
    using float_of_small_int [of 0] by simp
  obtain ops where run: "write_visual_pdf sample_lib ''May 01, 2025'' sample_report
      (PList (PDict ?kvs # ?rest)) ''Pie'' = Inr ops"
    using write_visual_pdf_ok [of ?kvs ?rest sample_lib "''May 01, 2025''" sample_report "''Pie''",
        OF _ _ sample_lib_draws]
    by (auto simp: sample_row_def)
  have "charts_section sample_lib ''Pie'' (PList (PDict ?kvs # ?rest)) (2 * cm) y = Inr ([], y)" for y
    by (simp add: charts_section_def draw_charts_def create_pie_chart_def field
          infer_key_field_def infer_value_field_def dict_keys_def sample_row_def
          row_value_def dict_get_def zero sample_lib_def)
  with document_charts [OF run] have "filter is_pie_chart ops = []"
    by auto
  with field run show ?thesis by simp
qed

section \<open>The summary's chart flag\<close>

text \<open>
  Claim C10. In the summary of a build that succeeded, \<open>has_charts\<close> is true exactly
  when the query data is not None and has a positive length. The chart policy and
  the charts drawn play no part: under the policy \<open>None\<close>, and when row 0 has no
  numeric field, the document holds no chart whatever the flag says.
\<close>

theorem has_charts_iff_data_present:
  assumes "build_pdf L today report query_data out_path fname dir chart_type = Inr (Built ops info)"
  shows "has_charts info = (query_data \<noteq> PNone \<and> (\<exists>n. py_len query_data = Inr n \<and> 0 < n))
     \<and> (chart_type = ''None'' \<longrightarrow> filter is_bar_chart ops = [] \<and> filter is_pie_chart ops = [])
     \<and> (\<forall>kvs rest. query_data = PList (PDict kvs # rest) \<and> find_numeric_field kvs = None \<longrightarrow>
           filter is_bar_chart ops = [] \<and> filter is_pie_chart ops = [])"
proof -
  from assms have run: "write_visual_pdf L today report query_data chart_type = Inr ops"
    by (auto simp: build_pdf_def split: sum.splits if_splits)
  from assms have "has_charts info = (query_data \<noteq> PNone \<and> (\<exists>n. py_len query_data = Inr n \<and> 0 < n))"
    by (auto simp: build_pdf_def split: sum.splits if_splits)
  moreover from document_charts [OF run] obtain chart_ops y y'
    where sec: "charts_section L chart_type query_data (2 * cm) y = Inr (chart_ops, y')"
      and bars: "filter is_bar_chart ops = filter is_bar_chart chart_ops"
      and pies: "filter is_pie_chart ops = filter is_pie_chart chart_ops"
    by blast
  have "chart_type = ''None'' \<longrightarrow> filter is_bar_chart ops = [] \<and> filter is_pie_chart ops = []"
    using sec bars pies by (auto simp: charts_section_def)
  moreover have "\<forall>kvs rest. query_data = PList (PDict kvs # rest) \<and> find_numeric_field kvs = None \<longrightarrow>
           filter is_bar_chart ops = [] \<and> filter is_pie_chart ops = []"
    using sec bars pies by (auto simp: charts_section_def split: if_splits)
  ultimately show ?thesis by blast
qed

text \<open>
  One row with an amount under the policy \<open>None\<close>, and one row without a numeric
  field under \<open>Auto\<close>: the flag is true and the document has no chart.
\<close>

theorem has_charts_iff_data_present_witness:
  "(case build_pdf sample_lib ''May 01, 2025'' sample_report (PList [sample_row ''a'' 3])
           ''out/report.pdf'' ''report.pdf'' ''out'' ''None'' of
      Inr (Built ops info) \<Rightarrow>
        has_charts info \<and> filter is_bar_chart ops = [] \<and> filter is_pie_chart ops = []
    | _ \<Rightarrow> False)
   \<and> (case build_pdf sample_lib ''May 01, 2025'' sample_report (PList [PDict [(''name'', PStr ''a'')]])
           ''out/report.pdf'' ''report.pdf'' ''out'' ''Auto'' of
      Inr (Built ops info) \<Rightarrow>
        has_charts info \<and> filter is_bar_chart ops = [] \<and> filter is_pie_chart ops = []
    | _ \<Rightarrow> False)"
proof -
  let ?k1 = "[(''name'', PStr ''a''), (''amount'', PInt 3)]"
  let ?k2 = "[(''name'', PStr ''a'')]"
  obtain ops1 where run1: "write_visual_pdf sample_lib ''May 01, 2025'' sample_report
      (PList [PDict ?k1]) ''None'' = Inr ops1"
    using write_visual_pdf_ok [of ?k1 "[]" sample_lib "''May 01, 2025''" sample_report "''None''",
        OF _ _ sample_lib_draws]
    by auto
  obtain ops2 where run2: "write_visual_pdf sample_lib ''May 01, 2025'' sample_report
      (PList [PDict ?k2]) ''Auto'' = Inr ops2"
    using write_visual_pdf_ok [of ?k2 "[]" sample_lib "''May 01, 2025''" sample_report "''Auto''",
        OF _ _ sample_lib_draws]
    by auto
  obtain info1 where b1: "build_pdf sample_lib ''May 01, 2025'' sample_report (PList [PDict ?k1])
           ''out/report.pdf'' ''report.pdf'' ''out'' ''None'' = Inr (Built ops1 info1)"
    by (simp add: build_pdf_def run1)
  obtain info2 where b2: "build_pdf sample_lib ''May 01, 2025'' sample_report (PList [PDict ?k2])
           ''out/report.pdf'' ''report.pdf'' ''out'' ''Auto'' = Inr (Built ops2 info2)"
    by (simp add: build_pdf_def run2)
  have "has_charts info1 \<and> filter is_bar_chart ops1 = [] \<and> filter is_pie_chart ops1 = []"
    using has_charts_iff_data_present [OF b1] by simp
  moreover have "has_charts info2 \<and> filter is_bar_chart ops2 = [] \<and> filter is_pie_chart ops2 = []"
    using has_charts_iff_data_present [OF b2]
    by (simp add: find_numeric_field_def dict_keys_def dict_get_def)
  ultimately show ?thesis
    by (simp add: sample_row_def b1 b2)
qed

section \<open>Lists that break across pages\<close>

text \<open>
  The three item loops share a shape: a break block when the cursor is too low, the
  item's marker, its wrapped lines. The lemmas read the strings and the markers off
  the emitted operations, loop by loop, then section by section.
\<close>

lemma strings_at_append: "strings_at tx (a @ b) = strings_at tx a @ strings_at tx b"
  by (induction tx a rule: strings_at.induct) simp_all

lemma strings_at_draw_lines:
  "strings_at tx' (fst (draw_lines tx off step lines y)) = (if tx' = tx then lines else [])"
  by (induction lines arbitrary: y) (auto simp: case_prod_beta)

lemma draw_lines_markers:
  "filter is_circle (fst (draw_lines tx off step lines y)) = []
   \<and> filter is_line (fst (draw_lines tx off step lines y)) = []
   \<and> ShowPage \<notin> set (fst (draw_lines tx off step lines y))"
  by (induction lines arbitrary: y) (simp_all add: case_prod_beta)

lemma titled_breaks_skip:
  "ShowPage \<notin> set a \<Longrightarrow> titled_breaks x c h (a @ b) = titled_breaks x c h b"
  by (induction x c h a rule: titled_breaks.induct) simp_all

lemma titled_breaks_continued:
  "titled_breaks x c h (continued_title x c h @ b) = titled_breaks x c h b"
  by (simp add: continued_title_def)

lemma findings_loop_breaks:
  "titled_breaks x ''#2C3E50'' ''Detailed Findings (continued)'' (fst (findings_loop L x items y))"
  by (induction items arbitrary: y)
     (simp_all add: Let_def case_prod_beta titled_breaks_continued titled_breaks_skip
        finding_bullet_def draw_lines_markers)

lemma findings_loop_items:
  "strings_at (x + 15) (fst (findings_loop L x items y)) = concat (map (\<lambda>f. wrap L f 85) items)
   \<and> length (filter is_circle (fst (findings_loop L x items y))) = length items"
  by (induction items arbitrary: y)
     (simp_all add: Let_def case_prod_beta strings_at_append strings_at_draw_lines
        continued_title_def finding_bullet_def draw_lines_markers)

lemma upt_from: "[i..<i + Suc n] = i # [Suc i..<Suc i + n]"
  by (simp add: upt_conv_Cons)

lemma insights_loop_breaks:
  "titled_breaks x ''#2C3E50'' ''Key Insights (continued)'' (fst (insights_loop L x i items y))"
  by (induction items arbitrary: i y)
     (simp_all add: Let_def case_prod_beta titled_breaks_continued titled_breaks_skip
        insight_badge_def draw_lines_markers)

lemma insights_loop_items:
  "strings_at (x + 25) (fst (insights_loop L x i items y))
     = concat (map (\<lambda>a. wrap L (insight_text L a) 90) items)
   \<and> strings_at (x + 7) (fst (insights_loop L x i items y)) = map str_nat [i..<i + length items]
   \<and> length (filter is_circle (fst (insights_loop L x i items y))) = length items"
proof (induction items arbitrary: i y)
  case Nil
  then show ?case by simp
next
  case (Cons a items)
  show ?case
    unfolding length_Cons upt_from
    by (simp add: Cons Let_def case_prod_beta strings_at_append strings_at_draw_lines
        continued_title_def insight_badge_def draw_lines_markers)
qed

lemma recommendations_loop_breaks:
  "titled_breaks x ''#27AE60'' ''Recommendations (continued)''
     (fst (recommendations_loop L x items y))"
  by (induction items arbitrary: y)
     (simp_all add: Let_def case_prod_beta titled_breaks_continued titled_breaks_skip
        check_icon_def draw_lines_markers)

lemma recommendations_loop_items:
  "strings_at (x + 20) (fst (recommendations_loop L x items y))
     = concat (map (\<lambda>a. wrap L a 85) items)
   \<and> length (filter is_line (fst (recommendations_loop L x items y))) = 2 * length items"
  by (induction items arbitrary: y)
     (simp_all add: Let_def case_prod_beta strings_at_append strings_at_draw_lines
        continued_title_def check_icon_def draw_lines_markers)

lemma top_of_page_fits: "\<not> 27 * cm - 20 < 5 * cm" "\<not> 27 * cm - 20 < 4 * cm"
  by (simp_all add: cm_def)

lemma insights_loop_resumes:
  "y < 5 * cm \<Longrightarrow>
   insights_loop L x i (a # items) y =
     (continued_title x ''#2C3E50'' ''Key Insights (continued)''
        @ fst (insights_loop L x i (a # items) (27 * cm - 20)),
      snd (insights_loop L x i (a # items) (27 * cm - 20)))"
  by (simp add: Let_def case_prod_beta top_of_page_fits)

lemma findings_loop_resumes:
  "y < 4 * cm \<Longrightarrow>
   findings_loop L x (a # items) y =
     (continued_title x ''#2C3E50'' ''Detailed Findings (continued)''
        @ fst (findings_loop L x (a # items) (27 * cm - 20)),
      snd (findings_loop L x (a # items) (27 * cm - 20)))"
  by (simp add: Let_def case_prod_beta top_of_page_fits)

lemma recommendations_loop_resumes:
  "y < 4 * cm \<Longrightarrow>
   recommendations_loop L x (a # items) y =
     (continued_title x ''#27AE60'' ''Recommendations (continued)''
        @ fst (recommendations_loop L x (a # items) (27 * cm - 20)),
      snd (recommendations_loop L x (a # items) (27 * cm - 20)))"
  by (simp add: Let_def case_prod_beta top_of_page_fits)

lemma section_gap_strings: "tx \<noteq> x \<Longrightarrow> strings_at tx (fst (section_gap thr y)) = []"
  by (simp add: section_gap_def)

lemma insights_section_items:
  "strings_at (x + 25) (fst (draw_insights_section L ins x y pw))
     = concat (map (\<lambda>a. wrap L (insight_text L a) 90) (take 8 ins))
   \<and> strings_at (x + 7) (fst (draw_insights_section L ins x y pw))
     = map str_nat [1..<1 + min 8 (length ins)]"
proof (cases "ins = []")
  case True
  then show ?thesis by (simp add: draw_insights_section_def)
next
  case False
  have n: "length (take 8 ins) = min 8 (length ins)" by (simp add: min.commute)
  from False show ?thesis
    using insights_loop_items [of x L 1 "take 8 ins" "y - 20"]
    unfolding n
    by (simp add: draw_insights_section_def case_prod_beta strings_at_append
          del: upt_Suc)
qed

lemma findings_section_items:
  "strings_at (x + 15) (fst (findings_section L report x y))
     = concat (map (\<lambda>a. wrap L a 85) (take 10 (findings report)))
   \<and> length (filter is_circle (fst (findings_section L report x y)))
     = min 10 (length (findings report))"
  using findings_loop_items [of x L "take 10 (findings report)" "snd (section_gap 8 y) - 20"]
  by (simp add: findings_section_def case_prod_beta strings_at_append section_gap_def
        min.commute)

lemma recommendations_section_items:
  "strings_at (x + 20) (fst (recommendations_section L report x y))
     = concat (map (\<lambda>a. wrap L a 85) (take 8 (recommendations report)))
   \<and> length (filter is_line (fst (recommendations_section L report x y)))
     = 2 * min 8 (length (recommendations report))"
  using recommendations_loop_items
    [of x L "take 8 (recommendations report)" "snd (section_gap 8 y) - 20"]
  by (simp add: recommendations_section_def case_prod_beta strings_at_append section_gap_def
        min.commute)

text \<open>
  Claim C7. In the insights, findings and recommendations lists every page break
  taken between items is followed at once by the section title with the suffix
  \<open>(continued)\<close>, drawn at the top of the new page (27 cm); when the cursor is
  below the list's threshold before an item, that block is emitted and the list goes
  on exactly as it would from the cursor 20 below the top with the same items left.
  Whatever breaks are taken, the text lines drawn in a section are the wrapped lines
  of its items up to the cap (8, 10, 8), each once and in order, with one marker per
  item: the badges numbered from 1, one bullet per finding, one check mark (two
  strokes) per recommendation.
\<close>

theorem list_page_breaks_keep_items:
  "titled_breaks x ''#2C3E50'' ''Key Insights (continued)'' (fst (insights_loop L x i ins y))
   \<and> titled_breaks x ''#2C3E50'' ''Detailed Findings (continued)'' (fst (findings_loop L x fs y))
   \<and> titled_breaks x ''#27AE60'' ''Recommendations (continued)''
        (fst (recommendations_loop L x rs y))
   \<and> (y < 5 * cm \<longrightarrow>
        insights_loop L x i (a # ins) y =
          (continued_title x ''#2C3E50'' ''Key Insights (continued)''
             @ fst (insights_loop L x i (a # ins) (27 * cm - 20)),
           snd (insights_loop L x i (a # ins) (27 * cm - 20))))
   \<and> (y < 4 * cm \<longrightarrow>
        findings_loop L x (f # fs) y =
          (continued_title x ''#2C3E50'' ''Detailed Findings (continued)''
             @ fst (findings_loop L x (f # fs) (27 * cm - 20)),
           snd (findings_loop L x (f # fs) (27 * cm - 20))))
   \<and> (y < 4 * cm \<longrightarrow>
        recommendations_loop L x (r # rs) y =
          (continued_title x ''#27AE60'' ''Recommendations (continued)''
             @ fst (recommendations_loop L x (r # rs) (27 * cm - 20)),
           snd (recommendations_loop L x (r # rs) (27 * cm - 20))))
   \<and> strings_at (x + 25) (fst (draw_insights_section L ins x y pw))
       = concat (map (\<lambda>a. wrap L (insight_text L a) 90) (take 8 ins))
   \<and> strings_at (x + 7) (fst (draw_insights_section L ins x y pw))
       = map str_nat [1..<1 + min 8 (length ins)]
   \<and> strings_at (x + 15) (fst (findings_section L report x y))
       = concat (map (\<lambda>a. wrap L a 85) (take 10 (findings report)))
   \<and> length (filter is_circle (fst (findings_section L report x y)))
       = min 10 (length (findings report))
   \<and> strings_at (x + 20) (fst (recommendations_section L report x y))
       = concat (map (\<lambda>a. wrap L a 85) (take 8 (recommendations report)))
   \<and> length (filter is_line (fst (recommendations_section L report x y)))
       = 2 * min 8 (length (recommendations report))"
  using insights_loop_breaks [of x L i ins y] findings_loop_breaks [of x L fs y]
    recommendations_loop_breaks [of x L rs y]
    insights_loop_resumes [of y L x i a ins] findings_loop_resumes [of y L x f fs]
    recommendations_loop_resumes [of y L x r rs]
    insights_section_items [of x L ins y pw] findings_section_items [of x L report y]
    recommendations_section_items [of x L report y]
  by blast

text \<open>
  Two items with the cursor at 100, below both thresholds: each list starts with the
  break and the continued title, and both findings of the section are drawn once.
\<close>

theorem list_page_breaks_keep_items_witness:
  "findings_loop sample_lib 50 [''first'', ''second''] 100 =
     (continued_title 50 ''#2C3E50'' ''Detailed Findings (continued)''
        @ fst (findings_loop sample_lib 50 [''first'', ''second''] (27 * cm - 20)),
      snd (findings_loop sample_lib 50 [''first'', ''second''] (27 * cm - 20)))
   \<and> insights_loop sample_lib 50 1 [InsightText ''first'', InsightText ''second''] 100 =
     (continued_title 50 ''#2C3E50'' ''Key Insights (continued)''
        @ fst (insights_loop sample_lib 50 1 [InsightText ''first'', InsightText ''second'']
                 (27 * cm - 20)),
      snd (insights_loop sample_lib 50 1 [InsightText ''first'', InsightText ''second'']
             (27 * cm - 20)))
   \<and> recommendations_loop sample_lib 50 [''first'', ''second''] 100 =
     (continued_title 50 ''#27AE60'' ''Recommendations (continued)''
        @ fst (recommendations_loop sample_lib 50 [''first'', ''second''] (27 * cm - 20)),
      snd (recommendations_loop sample_lib 50 [''first'', ''second''] (27 * cm - 20)))
   \<and> strings_at 65
        (fst (findings_section sample_lib (sample_report\<lparr>findings := [''first'', ''second'']\<rparr>) 50 100))
       = [''first'', ''second'']"
  using list_page_breaks_keep_items
    [where L = sample_lib and x = 50 and y = 100 and f = "''first''" and fs = "[''second'']"
       and r = "''first''" and rs = "[''second'']" and i = 1
       and a = "InsightText ''first''" and ins = "[InsightText ''second'']"
       and report = "sample_report\<lparr>findings := [''first'', ''second'']\<rparr>"]
  by (simp add: cm_def sample_lib_def
        del: findings_loop.simps insights_loop.simps recommendations_loop.simps)

section \<open>Metric cards\<close>

text \<open>
  Where the cards lie. A card's background is the one filled rounded rectangle the
  card draws, so \<open>card_tops\<close> yields one entry per card; the loop's test is
  \<open>overflows\<close> at the card's row.
\<close>

lemma card_tops_append:
  "card_tops p (a @ b) = card_tops p a @ card_tops (p + length (filter (\<lambda>o1. o1 = ShowPage) a)) b"
  by (induction p a rule: card_tops.induct) simp_all

lemma card_content_tops:
  "card_tops p (card_content L cx cy m) = [] \<and> ShowPage \<notin> set (card_content L cx cy m)"
  by (simp add: card_content_def split: pyval.splits list.splits)

lemma draw_card_tops:
  "card_tops p (draw_card L cx cy m) = [(p, cx, cy)] \<and> ShowPage \<notin> set (draw_card L cx cy m)"
  using card_content_tops [of p L cx cy m]
  by (simp add: draw_card_def card_tops_append filter_empty_conv)

lemma draw_card_top: "card_tops p (draw_card L cx cy m) = [(p, cx, cy)]"
  using draw_card_tops by simp

lemma draw_card_no_break: "filter (\<lambda>o1. o1 = ShowPage) (draw_card L cx cy m) = []"
  using draw_card_tops [of 0 L cx cy m] by (auto simp: filter_empty_conv)

lemma overflows_mono: "overflows sy r \<Longrightarrow> r \<le> r' \<Longrightarrow> overflows sy r'"
proof -
  assume a: "overflows sy r" and b: "r \<le> r'"
  have "0 \<le> card_height + spacing" by (simp add: card_height_def spacing_def cm_def)
  moreover from b have "real r \<le> real r'" by simp
  ultimately have "real r * (card_height + spacing) \<le> real r' * (card_height + spacing)"
    by (rule mult_right_mono [rotated])
  with a show ?thesis by (simp add: overflows_def)
qed

lemma top_fits: "r \<le> 8 \<Longrightarrow> \<not> overflows (27 * cm) r"
proof -
  assume "r \<le> 8"
  then have "real r \<le> 8" by simp
  then show ?thesis
    by (simp add: overflows_def card_height_def spacing_def cm_def)
qed

lemma cards_loop_start:
  "snd (cards_loop L x i ms sy) =
     (if ShowPage \<in> set (fst (cards_loop L x i ms sy)) then 27 * cm else sy)"
proof (induction ms arbitrary: i sy)
  case Nil
  then show ?case by simp
next
  case (Cons m ms)
  show ?case
    using draw_card_tops
    by (simp add: Cons Let_def case_prod_beta)
qed

lemma cards_loop_layout:
  assumes "i + length ms \<le> 18" and "odd i \<longrightarrow> \<not> overflows sy (i div 2)"
  shows "card_tops p (fst (cards_loop L x i ms sy)) =
           map (\<lambda>k. (p + fst (card_place x sy k), snd (card_place x sy k))) [i..<i + length ms]"
  using assms
proof (induction ms arbitrary: i sy p)
  case Nil
  then show ?case by simp
next
  case (Cons m ms)
  let ?row = "i div 2"
  let ?cx = "x + real (i mod 2) * (card_width + spacing)"
  have range: "[i..<i + length (m # ms)] = i # [Suc i..<Suc i + length ms]"
    using upt_conv_Cons [of i "Suc i + length ms"] by (simp del: upt_Suc)
  have test: "(sy - real (i div 2) * (card_height + spacing) - card_height < 3 * cm)
      = overflows sy ?row"
    by (simp add: overflows_def)
  show ?case
  proof (cases "overflows sy ?row")
    case True
    with Cons.prems have even: "even i" by auto
    have fits: "\<not> overflows (27 * cm) (k div 2)" if "k < 18" for k
      using that by (intro top_fits) simp
    from Cons.prems have "Suc i + length ms \<le> 18" by simp
    moreover from Cons.prems even have "Suc i < 18"
      by (cases "i = 17") simp_all
    then have "odd (Suc i) \<longrightarrow> \<not> overflows (27 * cm) (Suc i div 2)"
      by (intro impI fits)
    ultimately have tail: "card_tops (Suc p) (fst (cards_loop L x (Suc i) ms (27 * cm))) =
        map (\<lambda>k. (Suc p + fst (card_place x (27 * cm) k), snd (card_place x (27 * cm) k)))
          [Suc i..<Suc i + length ms]"
      by (rule Cons.IH)
    have same: "(Suc p + fst (card_place x (27 * cm) k), snd (card_place x (27 * cm) k))
        = (p + fst (card_place x sy k), snd (card_place x sy k))"
      if "k \<in> set [Suc i..<Suc i + length ms]" for k
    proof -
      from that have "Suc i \<le> k" "k < Suc i + length ms"
        by (simp_all only: set_upt atLeastLessThan_iff)
      with Cons.prems(1) have "k < 18" "i \<le> k" by simp_all
      then have "\<not> overflows (27 * cm) (k div 2)" "overflows sy (k div 2)"
        using fits True overflows_mono [of sy ?row "k div 2"] by (simp_all add: div_le_mono)
      then show ?thesis by (simp add: card_place_def)
    qed
    have head: "(Suc p, ?cx, 27 * cm - real ?row * (card_height + spacing))
        = (p + fst (card_place x sy i), snd (card_place x sy i))"
      using True by (simp add: card_place_def)
    have "card_tops p (fst (cards_loop L x i (m # ms) sy)) =
        (Suc p, ?cx, 27 * cm - real ?row * (card_height + spacing))
        # card_tops (Suc p) (fst (cards_loop L x (Suc i) ms (27 * cm)))"
      using True
      by (simp add: Let_def case_prod_beta cards_per_row_def test card_tops_append
            draw_card_top draw_card_no_break)
    also have "\<dots> = (p + fst (card_place x sy i), snd (card_place x sy i))
        # map (\<lambda>k. (p + fst (card_place x sy k), snd (card_place x sy k)))
            [Suc i..<Suc i + length ms]"
      unfolding tail head using same by (simp cong: map_cong)
    finally show ?thesis unfolding range by simp
  next
    case False
    from Cons.prems have "Suc i + length ms \<le> 18" by simp
    moreover have "odd (Suc i) \<longrightarrow> \<not> overflows sy (Suc i div 2)"
      using False by auto
    ultimately have tail: "card_tops p (fst (cards_loop L x (Suc i) ms sy)) =
        map (\<lambda>k. (p + fst (card_place x sy k), snd (card_place x sy k)))
          [Suc i..<Suc i + length ms]"
      by (rule Cons.IH)
    have head: "(p, ?cx, sy - real ?row * (card_height + spacing))
        = (p + fst (card_place x sy i), snd (card_place x sy i))"
      using False by (simp add: card_place_def)
    have "card_tops p (fst (cards_loop L x i (m # ms) sy)) =
        (p, ?cx, sy - real ?row * (card_height + spacing))
        # card_tops p (fst (cards_loop L x (Suc i) ms sy))"
      using False
      by (simp add: Let_def case_prod_beta cards_per_row_def test card_tops_append
            draw_card_top draw_card_no_break)
    then show ?thesis unfolding range tail head by simp
  qed
qed

lemma cards_loop_break_iff:
  assumes "odd i \<longrightarrow> \<not> overflows sy (i div 2)"
  shows "ShowPage \<in> set (fst (cards_loop L x i ms sy))
           \<longleftrightarrow> (\<exists>k. i \<le> k \<and> k < i + length ms \<and> overflows sy (k div 2))"
  using assms
proof (induction ms arbitrary: i sy)
  case Nil
  then show ?case by simp
next
  case (Cons m ms)
  have test: "(sy - real (i div 2) * (card_height + spacing) - card_height < 3 * cm)
      = overflows sy (i div 2)"
    by (simp add: overflows_def)
  show ?case
  proof (cases "overflows sy (i div 2)")
    case True
    then have "ShowPage \<in> set (fst (cards_loop L x i (m # ms) sy))"
      by (simp add: Let_def case_prod_beta cards_per_row_def test)
    moreover from True have "\<exists>k. i \<le> k \<and> k < i + length (m # ms) \<and> overflows sy (k div 2)"
      by (intro exI [of _ i]) simp
    ultimately show ?thesis by blast
  next
    case False
    then have "odd (Suc i) \<longrightarrow> \<not> overflows sy (Suc i div 2)" by auto
    then have tail: "ShowPage \<in> set (fst (cards_loop L x (Suc i) ms sy))
        \<longleftrightarrow> (\<exists>k. Suc i \<le> k \<and> k < Suc i + length ms \<and> overflows sy (k div 2))"
      by (rule Cons.IH)
    have "ShowPage \<in> set (fst (cards_loop L x i (m # ms) sy))
        \<longleftrightarrow> ShowPage \<in> set (fst (cards_loop L x (Suc i) ms sy))"
      using False draw_card_tops [of 0 L]
      by (simp add: Let_def case_prod_beta cards_per_row_def test)
    also have "\<dots> \<longleftrightarrow> (\<exists>k. i \<le> k \<and> k < i + length (m # ms) \<and> overflows sy (k div 2))"
      unfolding tail
    proof
      assume "\<exists>k. Suc i \<le> k \<and> k < Suc i + length ms \<and> overflows sy (k div 2)"
      then obtain k where "Suc i \<le> k" "k < Suc i + length ms" "overflows sy (k div 2)" by blast
      then show "\<exists>k. i \<le> k \<and> k < i + length (m # ms) \<and> overflows sy (k div 2)"
        by (intro exI [of _ k]) simp
    next
      assume "\<exists>k. i \<le> k \<and> k < i + length (m # ms) \<and> overflows sy (k div 2)"
      then obtain k where k: "i \<le> k" "k < i + length (m # ms)" "overflows sy (k div 2)" by blast
      with False have "k \<noteq> i" by auto
      with k show "\<exists>k. Suc i \<le> k \<and> k < Suc i + length ms \<and> overflows sy (k div 2)"
        by (intro exI [of _ k]) simp
    qed
    finally show ?thesis .
  qed
qed

lemma metric_cards_break_iff:
  "ShowPage \<in> set (fst (draw_metric_cards L metrics x y pw))
     \<longleftrightarrow> (\<exists>k < min (length metrics) 10. overflows (y - 25) (k div 2))"
proof (cases "metrics = []")
  case True
  then show ?thesis by (simp add: draw_metric_cards_def)
next
  case False
  then show ?thesis
    using cards_loop_break_iff [of 0 "y - 25" L x "take 10 metrics"]
    by (simp add: draw_metric_cards_def Let_def case_prod_beta min.commute)
qed

lemma metric_cards_layout:
  "card_tops 0 (fst (draw_metric_cards L metrics x y pw)) =
     map (card_place x (y - 25)) [0..<min (length metrics) 10]"
proof (cases "metrics = []")
  case True
  then show ?thesis by (simp add: draw_metric_cards_def)
next
  case False
  have "card_tops 0 (fst (cards_loop L x 0 (take 10 metrics) (y - 25))) =
      map (\<lambda>k. (0 + fst (card_place x (y - 25) k), snd (card_place x (y - 25) k)))
        [0..<0 + length (take 10 metrics)]"
    by (rule cards_loop_layout) simp_all
  with False show ?thesis
    by (simp add: draw_metric_cards_def Let_def case_prod_beta min.commute)
qed

lemma metric_cards_cursor:
  assumes "metrics \<noteq> []"
  shows "snd (draw_metric_cards L metrics x y pw) =
     (if ShowPage \<in> set (fst (draw_metric_cards L metrics x y pw)) then 27 * cm else y - 25)
       - real ((min (length metrics) 10 + 1) div 2) * (card_height + spacing) - 20"
  using assms cards_loop_start [of L x 0 "take 10 metrics" "y - 25"]
  by (simp add: draw_metric_cards_def Let_def case_prod_beta cards_per_row_def)

lemma half_ceiling: "of_int \<lceil>real m / 2\<rceil> = real ((m + 1) div 2)"
proof -
  have "\<lceil>real m / 2\<rceil> = \<lceil>(of_int (int m) :: real) / of_int 2\<rceil>" by simp
  also have "\<dots> = - (- int m div 2)" by (rule ceiling_divide_eq_div)
  also have "\<dots> = int ((m + 1) div 2)" by presburger
  finally show ?thesis by simp
qed

text \<open>
  Claim C4, as the code has it. The cards drawn are the first 10 metrics, card \<open>k\<close>
  at \<open>card_place\<close>: a card is on the next page exactly when its row would reach
  below 3 cm laid out from the first start, so the break is taken for the row as a
  whole (the two cards of a row share page and height, and the one \<open>ShowPage\<close>
  comes before the first of them). On the new page the row keeps its offset: its top
  is 27 cm less \<open>row\<close> times the card height plus spacing, the top of the page
  only for row 0.
\<close>

theorem metric_cards_row_page_break:
  "card_tops 0 (fst (draw_metric_cards L metrics x y pw)) =
     map (card_place x (y - 25)) [0..<min (length metrics) 10]
   \<and> fst (card_place x (y - 25) (2 * j + 1)) = fst (card_place x (y - 25) (2 * j))
   \<and> snd (snd (card_place x (y - 25) (2 * j + 1))) = snd (snd (card_place x (y - 25) (2 * j)))
   \<and> (overflows (y - 25) (k div 2) \<longrightarrow>
        card_place x (y - 25) k =
          (1, x + real (k mod 2) * (card_width + spacing),
           27 * cm - real (k div 2) * (card_height + spacing)))
   \<and> (\<not> overflows (y - 25) (k div 2) \<longrightarrow>
        card_place x (y - 25) k =
          (0, x + real (k mod 2) * (card_width + spacing),
           y - 25 - real (k div 2) * (card_height + spacing)))"
proof -
  have "(2 * j + 1) div 2 = (2 * j) div 2" by simp
  then show ?thesis
    using metric_cards_layout [of L metrics x y pw]
    unfolding card_place_def by simp
qed

text \<open>
  Three cards from the cursor 200: row 0 fits, row 1 does not, and the third card is
  on the next page at 27 cm less one row.
\<close>

theorem metric_cards_row_page_break_witness:
  "card_tops 0 (fst (draw_metric_cards sample_lib [PDict [], PDict [], PDict []] (2 * cm) 200
       page_width))
   = [(0, 2 * cm, 175), (0, 2 * cm + (card_width + spacing), 175),
      (1, 2 * cm, 27 * cm - (card_height + spacing))]"
proof -
  have a: "\<not> overflows (200 - 25) (0 div 2)" "\<not> overflows (200 - 25) (1 div 2)"
    "overflows (200 - 25) (2 div 2)"
    by (simp_all add: overflows_def card_height_def spacing_def cm_def)
  have r: "[0..<min (length [PDict [], PDict [], PDict []]) 10] = [0, 1, 2]"
    by (simp add: upt_rec)
  show ?thesis
    using metric_cards_row_page_break
        [where L = sample_lib and metrics = "[PDict [], PDict [], PDict []]" and x = "2 * cm"
           and y = 200 and pw = page_width and k = 0]
      metric_cards_row_page_break
        [where L = sample_lib and metrics = "[PDict [], PDict [], PDict []]" and x = "2 * cm"
           and y = 200 and pw = page_width and k = 1]
      metric_cards_row_page_break
        [where L = sample_lib and metrics = "[PDict [], PDict [], PDict []]" and x = "2 * cm"
           and y = 200 and pw = page_width and k = 2]
      a
    unfolding r by simp
qed

text \<open>
  The same three cards against the claim as stated: the row moved to the new page
  has its top one row below 27 cm, not at the top of the page.
\<close>

theorem metric_cards_row_page_break_counterexample:
  "card_tops 0 (fst (draw_metric_cards sample_lib [PDict [], PDict [], PDict []] (2 * cm) 200
       page_width)) ! 2
   = (1, 2 * cm, 27 * cm - (card_height + spacing))
   \<and> 27 * cm - (card_height + spacing) \<noteq> 27 * cm"
proof -
  have a: "overflows (200 - 25) (2 div 2)"
    by (simp add: overflows_def card_height_def spacing_def cm_def)
  have r: "[0..<min (length [PDict [], PDict [], PDict []]) 10] = [0, 1, 2]"
    by (simp add: upt_rec)
  have "card_place (2 * cm) (200 - 25) 2 = (1, 2 * cm, 27 * cm - (card_height + spacing))"
    using a by (simp add: card_place_def)
  moreover have "27 * cm - (card_height + spacing) \<noteq> 27 * cm"
    by (simp add: card_height_def spacing_def cm_def)
  ultimately show ?thesis
    unfolding metric_cards_layout r by simp
qed

text \<open>
  Claim C5, as the code has it. For a non-empty metrics sequence of length \<open>n\<close> the
  cursor returned is the row start (25 below the cursor given, or 27 cm once the
  page break has been taken) less \<open>ceil(min(n, 10) / 2)\<close> rows of card height plus
  spacing, less 20. At most 10 cards are drawn, card \<open>k\<close> in column \<open>k mod 2\<close>;
  7 metrics make 4 rows. The empty sequence returns the cursor it was given.
\<close>

theorem metric_cards_final_cursor:
  "(metrics \<noteq> [] \<longrightarrow>
      snd (draw_metric_cards L metrics x y pw) =
        (if ShowPage \<in> set (fst (draw_metric_cards L metrics x y pw)) then 27 * cm else y - 25)
          - of_int \<lceil>real (min (length metrics) 10) / 2\<rceil> * (card_height + spacing) - 20)
   \<and> (length metrics = 7 \<longrightarrow>
      snd (draw_metric_cards L metrics x y pw) =
        (if ShowPage \<in> set (fst (draw_metric_cards L metrics x y pw)) then 27 * cm else y - 25)
          - 4 * (card_height + spacing) - 20)
   \<and> length (card_tops 0 (fst (draw_metric_cards L metrics x y pw))) = min (length metrics) 10
   \<and> (k < min (length metrics) 10 \<longrightarrow>
      fst (snd (card_tops 0 (fst (draw_metric_cards L metrics x y pw)) ! k))
        = x + real (k mod 2) * (card_width + spacing))
   \<and> (ShowPage \<in> set (fst (draw_metric_cards L metrics x y pw))
        \<longleftrightarrow> (\<exists>j < min (length metrics) 10. overflows (y - 25) (j div 2)))
   \<and> draw_metric_cards L [] x y pw = ([], y)"
proof -
  have a: "metrics \<noteq> [] \<longrightarrow>
      snd (draw_metric_cards L metrics x y pw) =
        (if ShowPage \<in> set (fst (draw_metric_cards L metrics x y pw)) then 27 * cm else y - 25)
          - of_int \<lceil>real (min (length metrics) 10) / 2\<rceil> * (card_height + spacing) - 20"
    using metric_cards_cursor [of metrics L x y pw] unfolding half_ceiling by blast
  have b: "length metrics = 7 \<longrightarrow>
      snd (draw_metric_cards L metrics x y pw) =
        (if ShowPage \<in> set (fst (draw_metric_cards L metrics x y pw)) then 27 * cm else y - 25)
          - 4 * (card_height + spacing) - 20"
  proof
    assume n: "length metrics = 7"
    then have "metrics \<noteq> []" by auto
    from metric_cards_cursor [OF this, of L x y pw] n show
      "snd (draw_metric_cards L metrics x y pw) =
        (if ShowPage \<in> set (fst (draw_metric_cards L metrics x y pw)) then 27 * cm else y - 25)
          - 4 * (card_height + spacing) - 20"
      by simp
  qed
  have c: "length (card_tops 0 (fst (draw_metric_cards L metrics x y pw))) = min (length metrics) 10"
    unfolding metric_cards_layout by simp
  have d: "k < min (length metrics) 10 \<longrightarrow>
      fst (snd (card_tops 0 (fst (draw_metric_cards L metrics x y pw)) ! k))
        = x + real (k mod 2) * (card_width + spacing)"
    unfolding metric_cards_layout by (simp add: card_place_def)
  have e: "draw_metric_cards L [] x y pw = ([], y)"
    by (simp add: draw_metric_cards_def)
  from a b c d e metric_cards_break_iff [of L metrics x y pw] show ?thesis by blast
qed

text \<open>
  Seven cards from the cursor 700: no page break, and the cursor returned is 4 rows
  and the gap of 20 below the row start 675.
\<close>

theorem metric_cards_final_cursor_witness:
  "snd (draw_metric_cards sample_lib (replicate 7 (PDict [])) (2 * cm) 700 page_width)
     = 675 - 4 * (card_height + spacing) - 20
   \<and> length (card_tops 0 (fst (draw_metric_cards sample_lib (replicate 7 (PDict [])) (2 * cm) 700
        page_width))) = 7
   \<and> fst (snd (card_tops 0 (fst (draw_metric_cards sample_lib (replicate 7 (PDict [])) (2 * cm) 700
        page_width)) ! 5)) = 2 * cm + (card_width + spacing)"
proof -
  have last_row: "\<not> overflows (700 - 25) 3"
    by (simp add: overflows_def card_height_def spacing_def cm_def)
  have fits: "\<not> overflows (700 - 25) (j div 2)" if "j < 7" for j
  proof
    assume "overflows (700 - 25) (j div 2)"
    moreover from that have "j div 2 \<le> 3" by simp
    ultimately have "overflows (700 - 25) 3" by (rule overflows_mono)
    with last_row show False by simp
  qed
  then have stay: "\<not> (\<exists>j < min (length (replicate 7 (PDict []))) 10. overflows (700 - 25) (j div 2))"
    by simp
  show ?thesis
    using metric_cards_final_cursor
      [where L = sample_lib and metrics = "replicate 7 (PDict [])" and x = "2 * cm" and y = 700
         and pw = page_width and k = 5]
      stay
    by auto
qed

text \<open>
  The empty sequence against the claim as stated: the cursor 400 comes back
  unchanged, which is neither 20 below the row start 375 nor 20 below 27 cm.
\<close>

theorem metric_cards_final_cursor_counterexample:
  "snd (draw_metric_cards sample_lib [] (2 * cm) 400 page_width) = 400
   \<and> (400 :: real) \<noteq> (400 - 25)
         - of_int \<lceil>real (min (length ([] :: pyval list)) 10) / 2\<rceil> * (card_height + spacing) - 20
   \<and> (400 :: real) \<noteq> 27 * cm
         - of_int \<lceil>real (min (length ([] :: pyval list)) 10) / 2\<rceil> * (card_height + spacing) - 20"
  by (simp add: draw_metric_cards_def cm_def)

end
